theory Spec2Isabelle
  imports Complex_Main
begin

section \<open>Survey flight-path planning: a model of the planner's code\<close>

text \<open>
  The planner is TypeScript, and its numbers are doubles. The coordinates of a point are
  only compared and passed on by the functions modelled here, and are real numbers. The
  segmenter and the spacing calculator compute with their numbers: their models take the
  arithmetic as a parameter, instantiated further down with the arithmetic of doubles,
  rounding and overflow included, and with the exact arithmetic of the real numbers. The
  grid builder divides by a spacing that can be zero: the result of such a division is
  modelled with the explicit type \<open>jsnum\<close>. A point is a pair of numbers, \<open>[lat, lon]\<close> in
  the planner's own arrays and \<open>[lon, lat]\<close> at the boundary of the geometry library.
  The geometry library (Turf) is not part of the repository: each of its functions that
  the planner calls is a parameter of the model, a total function, with two exceptions:
  the call of \<open>lineSplit\<close>, which the code wraps in \<open>try\<close>, may throw, and \<open>lineString\<close>
  throws when it is given fewer than two positions.
\<close>

type_synonym LatLon = "real \<times> real"
type_synonym LonLat = "real \<times> real"

definition toLonLat :: "LatLon \<Rightarrow> LonLat" where
  "toLonLat p = (case p of (lat, lon) \<Rightarrow> (lon, lat))"

definition toLatLon :: "LonLat \<Rightarrow> LatLon" where
  "toLatLon p = (case p of (lon, lat) \<Rightarrow> (lat, lon))"

subsection \<open>connectLegs: one continuous path through the legs\<close>

text \<open>
  The loop of \<open>connectLegs\<close> over the legs, with the array \<open>out\<close> it appends to as an
  accumulator. A leg of fewer than two points is skipped (\<open>continue\<close>); the first
  leg kept is copied whole; a later leg contributes its first point only when that point
  differs from the last point of \<open>out\<close>, and then its remaining points.
\<close>

fun connectLegs_loop :: "LatLon list list \<Rightarrow> LatLon list \<Rightarrow> LatLon list" where
  "connectLegs_loop [] out = out"
| "connectLegs_loop (leg # rest) out =
     (if length leg < 2 then connectLegs_loop rest out
      else if length out = 0 then connectLegs_loop rest (out @ leg)
      else
        (let lastp = out ! (length out - 1);
             start = leg ! 0;
             out1 = (if fst lastp \<noteq> fst start \<or> snd lastp \<noteq> snd start
                     then out @ [start] else out)
         in connectLegs_loop rest (out1 @ drop 1 leg)))"

definition connectLegs :: "LatLon list list \<Rightarrow> LatLon list" where
  "connectLegs lgs = connectLegs_loop lgs []"

subsection \<open>The arithmetic of the segmenter and of the spacing calculator\<close>

text \<open>
  JavaScript numbers are doubles, and what the segmenter and the spacing calculator
  return depends on how each operation rounds. Their models take the arithmetic as a
  parameter: the record \<open>Arith\<close> holds the operations the code applies to values of a
  number type \<open>'n\<close>, namely the value of a decimal literal, \<open>+\<close>, \<open>-\<close>, \<open>*\<close>, \<open>/\<close>,
  \<open>>\<close> and \<open>Math.max\<close>. The arithmetic of doubles, \<open>ieee\<close>, and the exact arithmetic
  of the real numbers, \<open>exact\<close>, are defined further down.
\<close>

record 'n Arith =
  num_lit :: "real \<Rightarrow> 'n"
  num_add :: "'n \<Rightarrow> 'n \<Rightarrow> 'n"
  num_sub :: "'n \<Rightarrow> 'n \<Rightarrow> 'n"
  num_mul :: "'n \<Rightarrow> 'n \<Rightarrow> 'n"
  num_div :: "'n \<Rightarrow> 'n \<Rightarrow> 'n"
  num_gt :: "'n \<Rightarrow> 'n \<Rightarrow> bool"
  num_max :: "'n \<Rightarrow> 'n \<Rightarrow> 'n"

subsection \<open>segmentByCap: splitting the legs by the battery cap\<close>

record 'n Segment =
  legs :: "LatLon list list"
  pathLatLon :: "LatLon list"
  distance_m :: 'n
  time_s :: 'n

text \<open>
  The library's \<open>lineString\<close> throws an error when it is given fewer than two positions,
  and the segmenter calls it outside any \<open>try\<close>: the error leaves \<open>segmentByCap\<close>.
  \<open>turfLength\<close> stands for the library's \<open>length\<close> of a line in kilometres, a parameter.
\<close>

datatype error = TooFewPositions

definition lineString :: "LonLat list \<Rightarrow> error + LonLat list" where
  "lineString coordinates =
     (if length coordinates < 2 then Inl TooFewPositions else Inr coordinates)"

text \<open>\<open>legTimeAndDist\<close> returns the pair \<open>(t, d)\<close>.\<close>

definition legTimeAndDist ::
  "'n Arith \<Rightarrow> (LonLat list \<Rightarrow> 'n) \<Rightarrow> 'n \<Rightarrow> LatLon list \<Rightarrow> error + 'n \<times> 'n" where
  "legTimeAndDist A turfLength speed_mps leg =
     (if length leg < 2 then Inr (num_lit A 0, num_lit A 0)
      else
        (let ll = map toLonLat leg
         in case lineString ll of
              Inl e \<Rightarrow> Inl e
            | Inr line \<Rightarrow>
                (let d = num_mul A (turfLength line) (num_lit A 1000);
                     t = (if num_gt A speed_mps (num_lit A 0) then num_div A d speed_mps
                          else num_lit A 0)
                 in Inr (t, d))))"

text \<open>The segment object that the code builds, in two places, from the running legs.\<close>

definition closeSegment ::
  "'n Arith \<Rightarrow> (LonLat list \<Rightarrow> 'n) \<Rightarrow> LatLon list list \<Rightarrow> 'n \<Rightarrow> error + 'n Segment" where
  "closeSegment A turfLength cur timeAccum =
     (let path = connectLegs cur;
          ll = map toLonLat path
      in case lineString ll of
           Inl e \<Rightarrow> Inl e
         | Inr line \<Rightarrow>
             (let segDist = num_mul A (turfLength line) (num_lit A 1000)
              in Inr \<lparr> legs = cur, pathLatLon = path, distance_m = segDist,
                       time_s = timeAccum \<rparr>))"

text \<open>The variables the \<open>forEach\<close> callback of \<open>segmentByCap\<close> updates.\<close>

record 'n SegState =
  segs :: "'n Segment list"
  current :: "LatLon list list"
  timeAccum :: 'n
  distAccum :: 'n

text \<open>
  The last three statements of the callback: \<open>current.push(leg)\<close>,
  \<open>timeAccum += t + extraTurn\<close> and \<open>distAccum += d\<close>.
\<close>

definition addLeg ::
  "'n Arith \<Rightarrow> 'n SegState \<Rightarrow> LatLon list \<Rightarrow> 'n \<Rightarrow> 'n \<Rightarrow> 'n \<Rightarrow> 'n SegState" where
  "addLeg A st leg t extraTurn d =
     \<lparr> segs = segs st,
       current = current st @ [leg],
       timeAccum = num_add A (timeAccum st) (num_add A t extraTurn),
       distAccum = num_add A (distAccum st) d \<rparr>"

text \<open>
  The callback. The test adds \<open>timeAccum + t\<close> first and \<open>extraTurn\<close> to the sum; the
  update adds \<open>t + extraTurn\<close> first.
\<close>

definition segStep ::
  "'n Arith \<Rightarrow> (LonLat list \<Rightarrow> 'n) \<Rightarrow> 'n \<Rightarrow> 'n \<Rightarrow> 'n \<Rightarrow> 'n SegState \<Rightarrow> LatLon list
     \<Rightarrow> error + 'n SegState" where
  "segStep A turfLength speed_mps turnTime_s budget_s st leg =
     (case legTimeAndDist A turfLength speed_mps leg of
        Inl e \<Rightarrow> Inl e
      | Inr (t, d) \<Rightarrow>
          (let extraTurn = turnTime_s
           in if current st \<noteq> [] \<and>
                 num_gt A (num_add A (num_add A (timeAccum st) t) extraTurn) budget_s
              then
                (case closeSegment A turfLength (current st) (timeAccum st) of
                   Inl e \<Rightarrow> Inl e
                 | Inr seg \<Rightarrow>
                     Inr (addLeg A
                            \<lparr> segs = segs st @ [seg], current = [],
                              timeAccum = num_lit A 0, distAccum = num_lit A 0 \<rparr>
                            leg t extraTurn d))
              else Inr (addLeg A st leg t extraTurn d)))"

text \<open>The \<open>forEach\<close> loop: it ends at the first error.\<close>

fun segLoop ::
  "'n Arith \<Rightarrow> (LonLat list \<Rightarrow> 'n) \<Rightarrow> 'n \<Rightarrow> 'n \<Rightarrow> 'n \<Rightarrow> 'n SegState \<Rightarrow> LatLon list list
     \<Rightarrow> error + 'n SegState" where
  "segLoop A turfLength speed_mps turnTime_s budget_s st [] = Inr st"
| "segLoop A turfLength speed_mps turnTime_s budget_s st (leg # rest) =
     (case segStep A turfLength speed_mps turnTime_s budget_s st leg of
        Inl e \<Rightarrow> Inl e
      | Inr st1 \<Rightarrow> segLoop A turfLength speed_mps turnTime_s budget_s st1 rest)"

definition segmentByCap ::
  "'n Arith \<Rightarrow> (LonLat list \<Rightarrow> 'n) \<Rightarrow> LatLon list list \<Rightarrow> 'n \<Rightarrow> 'n \<Rightarrow> 'n
     \<Rightarrow> error + 'n Segment list" where
  "segmentByCap A turfLength lgs speed_mps turnTime_s cap_min =
     (let budget_s =
            num_max A (num_lit A 60)
              (num_sub A (num_mul A cap_min (num_lit A 60)) (num_lit A 60))
      in case segLoop A turfLength speed_mps turnTime_s budget_s
                \<lparr> segs = [], current = [], timeAccum = num_lit A 0,
                  distAccum = num_lit A 0 \<rparr> lgs of
           Inl e \<Rightarrow> Inl e
         | Inr st \<Rightarrow>
             if current st \<noteq> []
             then (case closeSegment A turfLength (current st) (timeAccum st) of
                     Inl e \<Rightarrow> Inl e
                   | Inr seg \<Rightarrow> Inr (segs st @ [seg]))
             else Inr (segs st))"

subsection \<open>makePlan: the mission writer\<close>

record MissionItem =
  AMslAlt :: "bool option"
  autoContinue :: bool
  command :: int
  doJumpId :: int
  frame :: int
  params :: "real list"
  type :: string

definition NAV_WAYPOINT :: int where "NAV_WAYPOINT = 16"
definition DO_SET_CAM_TRIGG_DIST :: int where "DO_SET_CAM_TRIGG_DIST = 206"
definition GLOBAL :: int where "GLOBAL = 0"
definition GLOBAL_RELATIVE_ALT :: int where "GLOBAL_RELATIVE_ALT = 3"

text \<open>
  The module-level variable \<open>idCounter\<close> is the state: every function that reads or
  writes it takes its value and returns the new one. \<open>nextId\<close> is \<open>idCounter++\<close>: it
  returns the old value.
\<close>

definition nextId :: "int \<Rightarrow> int \<times> int" where
  "nextId idCounter = (idCounter, idCounter + 1)"

definition wp :: "real \<Rightarrow> real \<Rightarrow> real \<Rightarrow> int \<Rightarrow> MissionItem \<times> int" where
  "wp lat lon relAlt_m idCounter =
     (let (i, idCounter1) = nextId idCounter
      in (\<lparr> AMslAlt = Some False,
             autoContinue = True,
             command = NAV_WAYPOINT,
             doJumpId = i,
             frame = GLOBAL_RELATIVE_ALT,
             params = [0, 0, 0, 0, lat, lon, relAlt_m],
             type = ''SimpleItem'' \<rparr>, idCounter1))"

definition camTrigDist :: "real \<Rightarrow> int \<Rightarrow> MissionItem \<times> int" where
  "camTrigDist trigger_m idCounter =
     (let (i, idCounter1) = nextId idCounter
      in (\<lparr> AMslAlt = None,
             autoContinue = True,
             command = DO_SET_CAM_TRIGG_DIST,
             doJumpId = i,
             frame = GLOBAL,
             params = [trigger_m, 0, 0, 0, 0, 0, 0],
             type = ''SimpleItem'' \<rparr>, idCounter1))"

record MakePlanOptions =
  homeLat :: real
  homeLon :: real
  relAlt_m :: real
  groundspeed_mps :: "real option"
  hover_mps :: "real option"
  trigger_m :: real
  gridLines :: "LatLon list list"
  firmwareType :: "int option"
  vehicleType :: "int option"

record GeoFence =
  gf_version :: int
  polygons :: "unit list"
  circles :: "unit list"

record RallyPoints =
  rp_version :: int
  points :: "unit list"

record Mission =
  m_version :: int
  cruiseSpeed :: "real option"
  hoverSpeed :: "real option"
  items :: "MissionItem list"
  plannedHomePosition :: "real list"
  m_firmwareType :: int
  m_vehicleType :: int

record QgcPlan =
  fileType :: string
  version :: int
  groundStation :: string
  geoFence :: GeoFence
  rallyPoints :: RallyPoints
  mission :: Mission

text \<open>
  The two nested \<open>for\<close> loops of \<open>makePlan\<close>: the inner one pushes one waypoint per
  point of a line, the outer one runs over the lines. The state of both is the array
  \<open>items\<close> and the counter.
\<close>

definition pushWp :: "real \<Rightarrow> MissionItem list \<times> int \<Rightarrow> LatLon \<Rightarrow> MissionItem list \<times> int" where
  "pushWp relAlt st p =
     (case st of (its, idCounter) \<Rightarrow>
      case p of (lat, lon) \<Rightarrow>
        (let (it, idCounter1) = wp lat lon relAlt idCounter
         in (its @ [it], idCounter1)))"

definition pushLine :: "real \<Rightarrow> MissionItem list \<times> int \<Rightarrow> LatLon list \<Rightarrow> MissionItem list \<times> int" where
  "pushLine relAlt st line = foldl (pushWp relAlt) st line"

definition makePlan :: "int \<Rightarrow> MakePlanOptions \<Rightarrow> QgcPlan \<times> int" where
  "makePlan idCounter0 opts =
     (let idCounter1 = 1;
          (it0, idCounter2) = camTrigDist (trigger_m opts) idCounter1;
          (its, idCounter3) = foldl (pushLine (relAlt_m opts)) ([] @ [it0], idCounter2) (gridLines opts)
      in (\<lparr> fileType = ''Plan'',
             version = 1,
             groundStation = ''QGroundControl'',
             geoFence = \<lparr> gf_version = 2, polygons = [], circles = [] \<rparr>,
             rallyPoints = \<lparr> rp_version = 2, points = [] \<rparr>,
             mission = \<lparr> m_version = 2,
                         cruiseSpeed = groundspeed_mps opts,
                         hoverSpeed = hover_mps opts,
                         items = its,
                         plannedHomePosition = [homeLat opts, homeLon opts, 0],
                         m_firmwareType = (case firmwareType opts of Some f \<Rightarrow> f | None \<Rightarrow> 12),
                         m_vehicleType = (case vehicleType opts of Some v \<Rightarrow> v | None \<Rightarrow> 3) \<rparr> \<rparr>,
          idCounter3))"

subsection \<open>Numbers that may leave the finite range\<close>

text \<open>
  A JavaScript division by zero does not fail: it yields \<open>Infinity\<close>, \<open>-Infinity\<close> or
  \<open>NaN\<close>. Where the grid builder divides by a number that can be zero, the result is a
  \<open>jsnum\<close>. The operations below are those of IEEE arithmetic on these values, without
  rounding and with zero taken as positive zero.
\<close>

datatype jsnum = Fin real | PosInf | NegInf | NaN

definition js_div :: "real \<Rightarrow> real \<Rightarrow> jsnum" where
  "js_div a b =
     (if b \<noteq> 0 then Fin (a / b)
      else if a > 0 then PosInf
      else if a < 0 then NegInf
      else NaN)"

fun js_times :: "jsnum \<Rightarrow> real \<Rightarrow> jsnum" where
  "js_times (Fin a) b = Fin (a * b)"
| "js_times PosInf b = (if b > 0 then PosInf else if b < 0 then NegInf else NaN)"
| "js_times NegInf b = (if b > 0 then NegInf else if b < 0 then PosInf else NaN)"
| "js_times NaN b = NaN"

subsection \<open>spacingFromOverlap: spacing from the camera and the overlaps\<close>

record 'n Camera =
  name :: string
  sensorWidth_mm :: 'n
  sensorHeight_mm :: 'n
  focalLength_mm :: 'n
  imageWidth_px :: 'n
  imageHeight_px :: 'n
  pixelPitch_um :: "'n option"

record 'n Footprint =
  groundWidth_m :: 'n
  groundHeight_m :: 'n

definition footprintMeters :: "'n Arith \<Rightarrow> 'n \<Rightarrow> 'n Camera \<Rightarrow> 'n Footprint" where
  "footprintMeters A heightAGL_m cam =
     \<lparr> groundWidth_m =
         num_div A
           (num_mul A heightAGL_m (num_div A (sensorWidth_mm cam) (num_lit A 1000)))
           (num_div A (focalLength_mm cam) (num_lit A 1000)),
       groundHeight_m =
         num_div A
           (num_mul A heightAGL_m (num_div A (sensorHeight_mm cam) (num_lit A 1000)))
           (num_div A (focalLength_mm cam) (num_lit A 1000)) \<rparr>"

record 'n Spacing =
  along_m :: 'n
  across_m :: 'n
  footprint :: "'n Footprint"

definition spacingFromOverlap :: "'n Arith \<Rightarrow> 'n \<Rightarrow> 'n Camera \<Rightarrow> 'n \<Rightarrow> 'n \<Rightarrow> 'n Spacing" where
  "spacingFromOverlap A heightAGL_m cam overlapFrac sidelapFrac =
     (let fp = footprintMeters A heightAGL_m cam
      in \<lparr> along_m = num_mul A (groundHeight_m fp) (num_sub A (num_lit A 1) overlapFrac),
           across_m = num_mul A (groundWidth_m fp) (num_sub A (num_lit A 1) sidelapFrac),
           footprint = fp \<rparr>)"

text \<open>The first camera preset; its numbers are the values of the literals of the source.\<close>

definition Mavic3T_Wide :: "'n Arith \<Rightarrow> 'n Camera" where
  "Mavic3T_Wide A =
     \<lparr> name = ''Mavic 3T Wide'', sensorWidth_mm = num_lit A 6.3,
       sensorHeight_mm = num_lit A 4.7, focalLength_mm = num_lit A 4.5,
       imageWidth_px = num_lit A 4000, imageHeight_px = num_lit A 3000,
       pixelPitch_um = None \<rparr>"

subsection \<open>orientedPathLonLat: the path turned towards home\<close>


subsection \<open>More operations on numbers that may not be finite\<close>

text \<open>
  The loop counter of the grid builder comes from \<open>Math.ceil(cover_m / (2 * spacing_m))\<close>,
  a division by a number that can be zero. These are the operations the loop applies to
  it: negation, \<open>i++\<close>, \<open>i <= halfSteps\<close> (false whenever a side is \<open>NaN\<close>) and the
  division of \<open>i * spacing_m\<close> by 1000.
\<close>

fun js_quot :: "jsnum \<Rightarrow> real \<Rightarrow> jsnum" where
  "js_quot (Fin a) b = js_div a b"
| "js_quot PosInf b = (if b \<ge> 0 then PosInf else NegInf)"
| "js_quot NegInf b = (if b \<ge> 0 then NegInf else PosInf)"
| "js_quot NaN b = NaN"

fun js_ceil :: "jsnum \<Rightarrow> jsnum" where
  "js_ceil (Fin a) = Fin (of_int \<lceil>a\<rceil>)"
| "js_ceil PosInf = PosInf"
| "js_ceil NegInf = NegInf"
| "js_ceil NaN = NaN"

fun js_neg :: "jsnum \<Rightarrow> jsnum" where
  "js_neg (Fin a) = Fin (- a)"
| "js_neg PosInf = NegInf"
| "js_neg NegInf = PosInf"
| "js_neg NaN = NaN"

fun js_inc :: "jsnum \<Rightarrow> jsnum" where
  "js_inc (Fin a) = Fin (a + 1)"
| "js_inc PosInf = PosInf"
| "js_inc NegInf = NegInf"
| "js_inc NaN = NaN"

fun js_le :: "jsnum \<Rightarrow> jsnum \<Rightarrow> bool" where
  "js_le NaN y = False"
| "js_le x NaN = False"
| "js_le (Fin a) (Fin b) = (a \<le> b)"
| "js_le NegInf y = True"
| "js_le x PosInf = True"
| "js_le x y = False"

text \<open>The remainder \<open>a % b\<close> of two finite numbers, \<open>b\<close> not zero: it has the sign of \<open>a\<close>.\<close>

definition js_rem :: "real \<Rightarrow> real \<Rightarrow> real" where
  "js_rem a b = a - b * of_int (if a / b \<ge> 0 then \<lfloor>a / b\<rfloor> else \<lceil>a / b\<rceil>)"

subsection \<open>buildGridInsidePolygon: the lawnmower grid inside the polygon\<close>

text \<open>
  A polygon is the list of its rings, each a list of \<open>[lon, lat]\<close> points; a line is
  the list of its points. The record \<open>Turf\<close> holds the library functions the grid
  builder calls. \<open>lineSplit\<close> is the one call the code wraps in \<open>try\<close>: it returns
  \<open>None\<close> when it throws, and the coordinate lists of the pieces otherwise.
\<close>

type_synonym Polygon = "LonLat list list"

record Turf =
  bbox :: "Polygon \<Rightarrow> real \<times> real \<times> real \<times> real"
  turfDistance :: "LonLat \<Rightarrow> LonLat \<Rightarrow> real"
  destination :: "LonLat \<Rightarrow> real \<Rightarrow> real \<Rightarrow> LonLat"
  transformTranslate :: "LonLat list \<Rightarrow> jsnum \<Rightarrow> real \<Rightarrow> LonLat list"
  lineSplit :: "LonLat list \<Rightarrow> Polygon \<Rightarrow> LonLat list list option"
  midpoint :: "LonLat \<Rightarrow> LonLat \<Rightarrow> LonLat"
  booleanPointInPolygon :: "LonLat \<Rightarrow> Polygon \<Rightarrow> bool"

text \<open>\<open>legs.push(legs.length % 2 === 0 ? path : [...path].reverse())\<close>\<close>

definition pushZigZag :: "LatLon list list \<Rightarrow> LatLon list \<Rightarrow> LatLon list list" where
  "pushZigZag lgs path = lgs @ [if length lgs mod 2 = 0 then path else rev path]"

text \<open>The body of the inner loop over the pieces of one scan line.\<close>

definition pieceStep :: "Turf \<Rightarrow> Polygon \<Rightarrow> LatLon list list \<Rightarrow> LonLat list \<Rightarrow> LatLon list list" where
  "pieceStep T poly lgs coords =
     (if length coords < 2 then lgs
      else
        (let mid = midpoint T (coords ! 0) (coords ! (length coords - 1))
         in if booleanPointInPolygon T mid poly
            then pushZigZag lgs (map toLatLon coords)
            else lgs))"

text \<open>The pieces of a scan line: those of \<open>lineSplit\<close>, or the whole line when there are
  none or when \<open>lineSplit\<close> throws.\<close>

definition piecesOf :: "Turf \<Rightarrow> Polygon \<Rightarrow> LonLat list \<Rightarrow> LonLat list list" where
  "piecesOf T poly shifted =
     (case lineSplit T shifted poly of
        Some features \<Rightarrow> if length features \<noteq> 0 then features else [shifted]
      | None \<Rightarrow> [shifted])"

text \<open>The body of the outer loop, for the counter value \<open>i\<close>.\<close>

definition gridBody ::
  "Turf \<Rightarrow> Polygon \<Rightarrow> LonLat list \<Rightarrow> real \<Rightarrow> real \<Rightarrow> jsnum \<Rightarrow> LatLon list list \<Rightarrow> LatLon list list" where
  "gridBody T poly baseLine spacing_m ortho i lgs =
     (let shifted = transformTranslate T baseLine (js_quot (js_times i spacing_m) 1000) ortho;
          pieces = piecesOf T poly shifted
      in foldl (pieceStep T poly) lgs pieces)"

text \<open>
  The outer loop \<open>for (let i = -halfSteps; i <= halfSteps; i++)\<close>. Nothing bounds the
  number of its rounds, so it is a partial function: \<open>None\<close> is a loop that never ends.
\<close>

partial_function (option) gridLoop ::
  "Turf \<Rightarrow> Polygon \<Rightarrow> LonLat list \<Rightarrow> real \<Rightarrow> real \<Rightarrow> jsnum \<Rightarrow> jsnum \<Rightarrow> LatLon list list
     \<Rightarrow> LatLon list list option" where
  "gridLoop T poly baseLine spacing_m ortho halfSteps i lgs =
     (if js_le i halfSteps
      then gridLoop T poly baseLine spacing_m ortho halfSteps (js_inc i)
             (gridBody T poly baseLine spacing_m ortho i lgs)
      else Some lgs)"

definition centerLon :: "Turf \<Rightarrow> Polygon \<Rightarrow> real" where
  "centerLon T poly = (case bbox T poly of (minX, minY, maxX, maxY) \<Rightarrow> (minX + maxX) / 2)"

definition centerLat :: "Turf \<Rightarrow> Polygon \<Rightarrow> real" where
  "centerLat T poly = (case bbox T poly of (minX, minY, maxX, maxY) \<Rightarrow> (minY + maxY) / 2)"

definition diag_m :: "Turf \<Rightarrow> Polygon \<Rightarrow> real" where
  "diag_m T poly =
     (case bbox T poly of (minX, minY, maxX, maxY) \<Rightarrow>
        turfDistance T (minX, minY) (maxX, maxY) * 1000)"

definition width_m :: "Turf \<Rightarrow> Polygon \<Rightarrow> real" where
  "width_m T poly =
     (case bbox T poly of (minX, minY, maxX, maxY) \<Rightarrow>
        turfDistance T (minX, centerLat T poly) (maxX, centerLat T poly) * 1000)"

definition height_m :: "Turf \<Rightarrow> Polygon \<Rightarrow> real" where
  "height_m T poly =
     (case bbox T poly of (minX, minY, maxX, maxY) \<Rightarrow>
        turfDistance T (centerLon T poly, minY) (centerLon T poly, maxY) * 1000)"

definition cover_m :: "Turf \<Rightarrow> Polygon \<Rightarrow> real \<Rightarrow> real" where
  "cover_m T poly spacing_m = max (width_m T poly) (height_m T poly) + spacing_m * 4"

definition baseLine :: "Turf \<Rightarrow> Polygon \<Rightarrow> real \<Rightarrow> LonLat list" where
  "baseLine T poly headingDeg =
     (let lineLen_m = max 500 (diag_m T poly * 2);
          pCenter = (centerLon T poly, centerLat T poly);
          p1 = destination T pCenter (lineLen_m / 2000) headingDeg;
          p2 = destination T pCenter (lineLen_m / 2000) (js_rem (headingDeg + 180) 360)
      in [p2, p1])"

definition buildGridInsidePolygon ::
  "Turf \<Rightarrow> Polygon \<Rightarrow> real \<Rightarrow> real \<Rightarrow> LatLon list list option" where
  "buildGridInsidePolygon T poly headingDeg spacing_m =
     (let halfSteps = js_ceil (js_div (cover_m T poly spacing_m) (2 * spacing_m));
          ortho = js_rem (headingDeg + 90) 360
      in gridLoop T poly (baseLine T poly headingDeg) spacing_m ortho
           halfSteps (js_neg halfSteps) [])"

subsection \<open>The legs used for planning\<close>

text \<open>
  \<open>legsPrimary\<close>, \<open>legsCross\<close> and \<open>allLegs\<close> are the memoised values of the
  application, as functions of what they are computed from; \<open>aoi\<close> is \<open>None\<close> when
  no polygon has been drawn, and \<open>across\<close> is the spacing \<open>across_m\<close>, a finite number.
\<close>

definition legsPrimary :: "Turf \<Rightarrow> Polygon option \<Rightarrow> real \<Rightarrow> real \<Rightarrow> LatLon list list option" where
  "legsPrimary T aoi heading across =
     (case aoi of
        None \<Rightarrow> Some []
      | Some poly \<Rightarrow>
          if poly = [] \<or> length (poly ! 0) < 4 then Some []
          else buildGridInsidePolygon T poly heading across)"

definition legsCross ::
  "Turf \<Rightarrow> Polygon option \<Rightarrow> bool \<Rightarrow> real \<Rightarrow> real \<Rightarrow> LatLon list list option" where
  "legsCross T aoi crosshatch heading across =
     (if \<not> crosshatch then Some []
      else
        (case aoi of
           None \<Rightarrow> Some []
         | Some poly \<Rightarrow> buildGridInsidePolygon T poly (js_rem (heading + 90) 360) across))"

definition allLegs :: "bool \<Rightarrow> LatLon list list \<Rightarrow> LatLon list list \<Rightarrow> LatLon list list" where
  "allLegs crosshatch lp lc = (if crosshatch then lp @ lc else lp)"

text \<open>
  The legs handed to the planner: \<open>allLegs\<close> of the two passes, when both return.
\<close>

definition planningLegs ::
  "Turf \<Rightarrow> Polygon option \<Rightarrow> bool \<Rightarrow> real \<Rightarrow> real \<Rightarrow> LatLon list list option" where
  "planningLegs T aoi crosshatch heading across =
     (case legsPrimary T aoi heading across of
        None \<Rightarrow> None
      | Some lp \<Rightarrow>
          (case legsCross T aoi crosshatch heading across of
             None \<Rightarrow> None
           | Some lc \<Rightarrow> Some (allLegs crosshatch lp lc)))"

section \<open>The arithmetic of doubles\<close>

text \<open>
  A double is a finite number, negative zero, an infinity or \<open>NaN\<close>; \<open>Num 0\<close> is positive
  zero, and the number in \<open>Num\<close> is one that the format represents. An operation on finite
  doubles returns the exact result rounded to the nearest double, to the even one of two
  nearest (\<open>toF64\<close>): the spacing of the doubles around \<open>x\<close> is \<open>2\<close> to the power
  \<open>ulpExp x\<close>, a result of magnitude \<open>2 ^ 1024\<close> or more after rounding is an infinity, and
  a result that rounds to zero keeps its sign.
\<close>

datatype f64 = Num real | NegZero | Infinity | NegInfinity | NotANumber

definition ulpExp :: "real \<Rightarrow> int" where
  "ulpExp x = max \<lfloor>log 2 \<bar>x\<bar>\<rfloor> (- 1022) - 52"

definition rne :: "real \<Rightarrow> int" where
  "rne y =
     (let f = \<lfloor>y\<rfloor>
      in if y - of_int f < 1 / 2 then f
         else if 1 / 2 < y - of_int f then f + 1
         else if even f then f else f + 1)"

definition roundReal :: "real \<Rightarrow> real" where
  "roundReal x = of_int (rne (x / 2 powr of_int (ulpExp x))) * 2 powr of_int (ulpExp x)"

definition toF64 :: "real \<Rightarrow> f64" where
  "toF64 x =
     (let r = roundReal x
      in if 2 ^ 1024 \<le> \<bar>r\<bar> then (if 0 < x then Infinity else NegInfinity)
         else if r = 0 then (if 0 \<le> x then Num 0 else NegZero)
         else Num r)"

primrec signBit :: "f64 \<Rightarrow> bool" where
  "signBit (Num r) = (r < 0)"
| "signBit NegZero = True"
| "signBit Infinity = False"
| "signBit NegInfinity = True"
| "signBit NotANumber = False"

text \<open>The value of a finite double.\<close>

primrec fv :: "f64 \<Rightarrow> real" where
  "fv (Num r) = r"
| "fv NegZero = 0"
| "fv Infinity = 0"
| "fv NegInfinity = 0"
| "fv NotANumber = 0"

definition isInf :: "f64 \<Rightarrow> bool" where
  "isInf a = (a = Infinity \<or> a = NegInfinity)"

definition isZero :: "f64 \<Rightarrow> bool" where
  "isZero a = (a = Num 0 \<or> a = NegZero)"

definition signedZero :: "bool \<Rightarrow> f64" where
  "signedZero negative = (if negative then NegZero else Num 0)"

definition signedInf :: "bool \<Rightarrow> f64" where
  "signedInf negative = (if negative then NegInfinity else Infinity)"

definition f64_mul :: "f64 \<Rightarrow> f64 \<Rightarrow> f64" where
  "f64_mul a b =
     (if a = NotANumber \<or> b = NotANumber then NotANumber
      else if isInf a \<or> isInf b
        then (if isZero a \<or> isZero b then NotANumber else signedInf (signBit a \<noteq> signBit b))
      else if isZero a \<or> isZero b then signedZero (signBit a \<noteq> signBit b)
      else toF64 (fv a * fv b))"

definition f64_div :: "f64 \<Rightarrow> f64 \<Rightarrow> f64" where
  "f64_div a b =
     (if a = NotANumber \<or> b = NotANumber then NotANumber
      else if isInf a
        then (if isInf b then NotANumber else signedInf (signBit a \<noteq> signBit b))
      else if isInf b then signedZero (signBit a \<noteq> signBit b)
      else if isZero b
        then (if isZero a then NotANumber else signedInf (signBit a \<noteq> signBit b))
      else if isZero a then signedZero (signBit a \<noteq> signBit b)
      else toF64 (fv a / fv b))"

definition f64_add :: "f64 \<Rightarrow> f64 \<Rightarrow> f64" where
  "f64_add a b =
     (if a = NotANumber \<or> b = NotANumber then NotANumber
      else if isInf a then (if isInf b \<and> a \<noteq> b then NotANumber else a)
      else if isInf b then b
      else if fv a + fv b = 0 then signedZero (signBit a \<and> signBit b)
      else toF64 (fv a + fv b))"

primrec f64_uminus :: "f64 \<Rightarrow> f64" where
  "f64_uminus (Num r) = (if r = 0 then NegZero else Num (- r))"
| "f64_uminus NegZero = Num 0"
| "f64_uminus Infinity = NegInfinity"
| "f64_uminus NegInfinity = Infinity"
| "f64_uminus NotANumber = NotANumber"

definition f64_sub :: "f64 \<Rightarrow> f64 \<Rightarrow> f64" where
  "f64_sub a b = f64_add a (f64_uminus b)"

definition f64_gt :: "f64 \<Rightarrow> f64 \<Rightarrow> bool" where
  "f64_gt a b =
     (if a = NotANumber \<or> b = NotANumber then False
      else if a = Infinity then b \<noteq> Infinity
      else if a = NegInfinity then False
      else if b = Infinity then False
      else if b = NegInfinity then True
      else fv b < fv a)"

text \<open>\<open>Math.max\<close> of two numbers: \<open>NaN\<close> if one is, and positive zero is the larger zero.\<close>

definition f64_max :: "f64 \<Rightarrow> f64 \<Rightarrow> f64" where
  "f64_max a b =
     (if a = NotANumber \<or> b = NotANumber then NotANumber
      else if f64_gt a b then a
      else if f64_gt b a then b
      else if signBit a then b else a)"

definition ieee :: "f64 Arith" where
  "ieee =
     \<lparr> num_lit = toF64, num_add = f64_add, num_sub = f64_sub, num_mul = f64_mul,
       num_div = f64_div, num_gt = f64_gt, num_max = f64_max \<rparr>"

text \<open>The arithmetic of the real numbers, without rounding.\<close>

definition exact :: "real Arith" where
  "exact =
     \<lparr> num_lit = (\<lambda>x. x), num_add = (+), num_sub = (-), num_mul = (*),
       num_div = (/), num_gt = (\<lambda>a b. b < a), num_max = max \<rparr>"

section \<open>Notions used in the statements and proofs\<close>

subsection \<open>Invariants of the segmenter's loop\<close>

text \<open>The segments a call returns: none when it throws.\<close>

definition segmentsOf :: "error + 'a list \<Rightarrow> 'a list" where
  "segmentsOf r = (case r of Inl e \<Rightarrow> [] | Inr ss \<Rightarrow> ss)"

text \<open>The legs seen so far: those of the closed segments, then the running ones.\<close>

definition legsOf :: "'n SegState \<Rightarrow> LatLon list list" where
  "legsOf st = concat (map legs (segs st)) @ current st"

text \<open>No closed segment is empty.\<close>

definition nonemptySegs :: "'n Segment list \<Rightarrow> bool" where
  "nonemptySegs ss = list_all (\<lambda>s. legs s \<noteq> []) ss"

text \<open>
  In exact arithmetic: the time of a leg with its turn, the time of a list of legs, and
  the invariant of the loop. A segment respects the budget \<open>b\<close> when its time is the sum
  over its legs and is at most \<open>b\<close>, or it holds one leg; the running segment as well,
  as long as it is not empty.
\<close>

definition legCost :: "(LonLat list \<Rightarrow> real) \<Rightarrow> real \<Rightarrow> real \<Rightarrow> LatLon list \<Rightarrow> real" where
  "legCost turfLength speed_mps turnTime_s leg =
     (case legTimeAndDist exact turfLength speed_mps leg of
        Inl e \<Rightarrow> 0
      | Inr (t, d) \<Rightarrow> t + turnTime_s)"

definition legsCost :: "(LonLat list \<Rightarrow> real) \<Rightarrow> real \<Rightarrow> real \<Rightarrow> LatLon list list \<Rightarrow> real" where
  "legsCost turfLength speed_mps turnTime_s lgs =
     sum_list (map (legCost turfLength speed_mps turnTime_s) lgs)"

definition withinBudget ::
  "(LonLat list \<Rightarrow> real) \<Rightarrow> real \<Rightarrow> real \<Rightarrow> real \<Rightarrow> real Segment \<Rightarrow> bool" where
  "withinBudget turfLength speed_mps turnTime_s b s =
     (time_s s = legsCost turfLength speed_mps turnTime_s (legs s) \<and>
      (time_s s \<le> b \<or> length (legs s) = 1))"

definition budgetInv ::
  "(LonLat list \<Rightarrow> real) \<Rightarrow> real \<Rightarrow> real \<Rightarrow> real \<Rightarrow> real SegState \<Rightarrow> bool" where
  "budgetInv turfLength speed_mps turnTime_s b st =
     (list_all (withinBudget turfLength speed_mps turnTime_s b) (segs st) \<and>
      timeAccum st = legsCost turfLength speed_mps turnTime_s (current st) \<and>
      (current st = [] \<or> timeAccum st \<le> b \<or> length (current st) = 1))"

subsection \<open>The operations of the spacing calculator in doubles\<close>

text \<open>
  A normal double: finite, and of magnitude at least \<open>2\<close> to the power \<open>-1022\<close>; the
  result of an operation that is normal has neither overflowed nor underflowed.
  \<open>spacingSteps\<close> lists the results of the six operations that give one spacing, in the
  order of the code: \<open>sensor / 1000\<close>, \<open>height * (sensor / 1000)\<close>, \<open>focal / 1000\<close>,
  their quotient, \<open>1 - lap\<close>, and the product of the last two, the spacing.
\<close>

primrec normalF64 :: "f64 \<Rightarrow> bool" where
  "normalF64 (Num r) = (2 powr (- 1022) \<le> \<bar>r\<bar>)"
| "normalF64 NegZero = False"
| "normalF64 Infinity = False"
| "normalF64 NegInfinity = False"
| "normalF64 NotANumber = False"

definition spacingSteps :: "f64 \<Rightarrow> f64 \<Rightarrow> f64 \<Rightarrow> f64 \<Rightarrow> f64 list" where
  "spacingSteps h sensor focal lap =
     (let a = f64_div sensor (toF64 1000);
          b = f64_mul h a;
          c = f64_div focal (toF64 1000);
          g = f64_div b c;
          w = f64_sub (toF64 1) lap;
          r = f64_mul g w
      in [a, b, c, g, w, r])"

subsection \<open>The items of the mission writer\<close>

text \<open>The waypoint items of a list of points, numbered from a given counter value.\<close>

fun wpItems :: "real \<Rightarrow> int \<Rightarrow> LatLon list \<Rightarrow> MissionItem list" where
  "wpItems relAlt c [] = []"
| "wpItems relAlt c (p # ps) = fst (wp (fst p) (snd p) relAlt c) # wpItems relAlt (c + 1) ps"

subsection \<open>The kept pieces of a grid pass and their directions\<close>

text \<open>
  A piece is kept when it has at least two points and the midpoint of its two ends is
  inside the polygon. \<open>keptPaths\<close> lists the kept pieces of one pass as \<open>[lat, lon]\<close>
  paths, each in the direction in which the clipper returned it (that of its scan line),
  in the order of the scan lines \<open>-n, ..., n\<close>.
\<close>

definition keepPiece :: "Turf \<Rightarrow> Polygon \<Rightarrow> LonLat list \<Rightarrow> bool" where
  "keepPiece T poly coords =
     (2 \<le> length coords \<and> booleanPointInPolygon T (midpoint T (hd coords) (last coords)) poly)"

definition scanLine :: "Turf \<Rightarrow> Polygon \<Rightarrow> real \<Rightarrow> real \<Rightarrow> int \<Rightarrow> LonLat list" where
  "scanLine T poly headingDeg spacing_m i =
     transformTranslate T (baseLine T poly headingDeg)
       (Fin (of_int i * spacing_m / 1000)) (js_rem (headingDeg + 90) 360)"

definition keptOfLine :: "Turf \<Rightarrow> Polygon \<Rightarrow> real \<Rightarrow> real \<Rightarrow> int \<Rightarrow> LatLon list list" where
  "keptOfLine T poly headingDeg spacing_m i =
     map (map toLatLon)
       (filter (keepPiece T poly) (piecesOf T poly (scanLine T poly headingDeg spacing_m i)))"

definition keptPaths :: "Turf \<Rightarrow> Polygon \<Rightarrow> real \<Rightarrow> real \<Rightarrow> LatLon list list" where
  "keptPaths T poly headingDeg spacing_m =
     (let n = \<lceil>cover_m T poly spacing_m / (2 * spacing_m)\<rceil>
      in concat (map (keptOfLine T poly headingDeg spacing_m) [- n..n]))"

text \<open>Forward at even positions, reversed at odd ones, counting from \<open>n\<close>.\<close>

fun zigzagFrom :: "nat \<Rightarrow> 'a list list \<Rightarrow> 'a list list" where
  "zigzagFrom n [] = []"
| "zigzagFrom n (p # ps) = (if even n then p else rev p) # zigzagFrom (Suc n) ps"

subsection \<open>A planar geometry to run the grid builder on\<close>

text \<open>
  To run the grid builder on concrete inputs, the library functions are instantiated by
  plane geometry: coordinates are kilometres east and north, a bearing is measured
  clockwise from north, the bounding box and the inside test are those of the box around
  the polygon, and the clipper reports no crossing, so that the code keeps each scan line
  whole (its fallback).
\<close>

definition flat_bbox :: "Polygon \<Rightarrow> real \<times> real \<times> real \<times> real" where
  "flat_bbox poly =
     (let ring = concat poly
      in (Min (set (map fst ring)), Min (set (map snd ring)),
          Max (set (map fst ring)), Max (set (map snd ring))))"

definition flat_distance :: "LonLat \<Rightarrow> LonLat \<Rightarrow> real" where
  "flat_distance p q = sqrt ((fst p - fst q)\<^sup>2 + (snd p - snd q)\<^sup>2)"

definition flat_destination :: "LonLat \<Rightarrow> real \<Rightarrow> real \<Rightarrow> LonLat" where
  "flat_destination p d bearing =
     (fst p + d * sin (bearing * pi / 180), snd p + d * cos (bearing * pi / 180))"

definition flat_translate :: "LonLat list \<Rightarrow> jsnum \<Rightarrow> real \<Rightarrow> LonLat list" where
  "flat_translate line d bearing =
     (case d of Fin x \<Rightarrow> map (\<lambda>p. flat_destination p x bearing) line | _ \<Rightarrow> line)"

definition flat_midpoint :: "LonLat \<Rightarrow> LonLat \<Rightarrow> LonLat" where
  "flat_midpoint p q = ((fst p + fst q) / 2, (snd p + snd q) / 2)"

definition flat_inside :: "LonLat \<Rightarrow> Polygon \<Rightarrow> bool" where
  "flat_inside p poly =
     (case flat_bbox poly of (minX, minY, maxX, maxY) \<Rightarrow>
        minX < fst p \<and> fst p < maxX \<and> minY < snd p \<and> snd p < maxY)"

definition flatTurf :: Turf where
  "flatTurf =
     \<lparr> bbox = flat_bbox,
       turfDistance = flat_distance,
       destination = flat_destination,
       transformTranslate = flat_translate,
       lineSplit = (\<lambda>line poly. Some []),
       midpoint = flat_midpoint,
       booleanPointInPolygon = flat_inside \<rparr>"

text \<open>A rectangle of 4 km by 3 km, as a closed ring of five points.\<close>

definition rect43 :: Polygon where
  "rect43 = [[(0, 0), (4, 0), (4, 3), (0, 3), (0, 0)]]"

section \<open>Properties\<close>

subsection \<open>connectLegs\<close>

lemma connectLegs_loop_filter:
  "connectLegs_loop (filter (\<lambda>leg. 2 \<le> length leg) lgs) out = connectLegs_loop lgs out"
proof (induction lgs arbitrary: out)
  case Nil
  show ?case by simp
next
  case (Cons leg rest)
  show ?case
  proof (cases "length leg < 2")
    case True
    then show ?thesis using Cons.IH by simp
  next
    case False
    then have keep: "2 \<le> length leg" by simp
    show ?thesis using keep False Cons.IH by (simp add: Let_def)
  qed
qed

text \<open>
  C10. The stitched path of a leg list is the stitched path of its sublist of legs with
  at least two points: a leg with fewer than two points contributes nothing.
\<close>

theorem connectLegs_skips_short_legs:
  "connectLegs lgs = connectLegs (filter (\<lambda>leg. 2 \<le> length leg) lgs)"
  by (simp add: connectLegs_def connectLegs_loop_filter)

text \<open>
  A run of the model: the connector point \<open>(1, 1)\<close> is inserted, the shared point
  \<open>(1, 0)\<close> is not repeated, and the leg of one point is skipped.
\<close>

lemma connectLegs_example:
  "connectLegs [[(0, 0), (0, 1)], [(1, 1), (1, 0)], [(9, 9)], [(1, 0), (2, 0)]] =
     [(0, 0), (0, 1), (1, 1), (1, 0), (2, 0)]"
  by (simp add: connectLegs_def)

subsection \<open>segmentByCap: what holds in every arithmetic\<close>

lemma legTimeAndDist_returns:
  "\<exists>t d. legTimeAndDist A len sp leg = Inr (t, d)"
  by (simp add: legTimeAndDist_def lineString_def Let_def)

lemma closeSegment_Inr:
  assumes "closeSegment A len cur ta = Inr seg"
  shows "legs seg = cur" and "time_s seg = ta" and "pathLatLon seg = connectLegs cur"
  using assms by (auto simp add: closeSegment_def Let_def split: sum.splits)

lemma closeSegment_throws:
  "closeSegment A len cur ta = Inl e \<longleftrightarrow> length (connectLegs cur) < 2"
  by (cases e) (simp add: closeSegment_def lineString_def Let_def)

lemma closeSegment_returns:
  assumes "2 \<le> length (connectLegs cur)"
  shows "\<exists>seg. closeSegment A len cur ta = Inr seg"
  using assms by (simp add: closeSegment_def lineString_def Let_def)

text \<open>One step of the loop, by the branch it takes.\<close>

lemma segStep_Inr:
  assumes step: "segStep A len sp tt b st leg = Inr st1"
  obtains (close) t d seg where
      "legTimeAndDist A len sp leg = Inr (t, d)"
      "current st \<noteq> []"
      "num_gt A (num_add A (num_add A (timeAccum st) t) tt) b"
      "closeSegment A len (current st) (timeAccum st) = Inr seg"
      "st1 = addLeg A \<lparr> segs = segs st @ [seg], current = [],
                          timeAccum = num_lit A 0, distAccum = num_lit A 0 \<rparr> leg t tt d"
  | (keep) t d where
      "legTimeAndDist A len sp leg = Inr (t, d)"
      "\<not> (current st \<noteq> [] \<and> num_gt A (num_add A (num_add A (timeAccum st) t) tt) b)"
      "st1 = addLeg A st leg t tt d"
  using step unfolding segStep_def Let_def
  by (auto split: sum.splits prod.splits if_splits)

lemma segStep_legsOf:
  assumes "segStep A len sp tt b st leg = Inr st1"
  shows "legsOf st1 = legsOf st @ [leg]"
  using assms
proof (cases rule: segStep_Inr)
  case (close t d seg)
  then show ?thesis by (simp add: legsOf_def addLeg_def closeSegment_Inr)
next
  case (keep t d)
  then show ?thesis by (simp add: legsOf_def addLeg_def)
qed

lemma segLoop_legsOf:
  "segLoop A len sp tt b st lgs = Inr st1 \<Longrightarrow> legsOf st1 = legsOf st @ lgs"
proof (induction lgs arbitrary: st)
  case Nil
  then show ?case by simp
next
  case (Cons leg rest)
  then obtain st2 where step: "segStep A len sp tt b st leg = Inr st2"
    and loop: "segLoop A len sp tt b st2 rest = Inr st1"
    by (auto split: sum.splits)
  show ?case using Cons.IH [OF loop] segStep_legsOf [OF step] by simp
qed

lemma segStep_nonempty:
  assumes "segStep A len sp tt b st leg = Inr st1" and "nonemptySegs (segs st)"
  shows "nonemptySegs (segs st1)"
  using assms(1)
proof (cases rule: segStep_Inr)
  case (close t d seg)
  then show ?thesis using assms(2) by (simp add: nonemptySegs_def addLeg_def closeSegment_Inr)
next
  case (keep t d)
  then show ?thesis using assms(2) by (simp add: addLeg_def)
qed

lemma segLoop_nonempty:
  "segLoop A len sp tt b st lgs = Inr st1 \<Longrightarrow> nonemptySegs (segs st) \<Longrightarrow>
   nonemptySegs (segs st1)"
proof (induction lgs arbitrary: st)
  case Nil
  then show ?case by simp
next
  case (Cons leg rest)
  then obtain st2 where step: "segStep A len sp tt b st leg = Inr st2"
    and loop: "segLoop A len sp tt b st2 rest = Inr st1"
    by (auto split: sum.splits)
  show ?case using Cons.IH [OF loop] segStep_nonempty [OF step Cons.prems(2)] by simp
qed

text \<open>What \<open>segmentByCap\<close> returns, in terms of the state after the loop.\<close>

lemma segmentByCap_Inr:
  assumes "segmentByCap A len lgs sp tt cap = Inr ss"
  obtains st where
    "segLoop A len sp tt
       (num_max A (num_lit A 60) (num_sub A (num_mul A cap (num_lit A 60)) (num_lit A 60)))
       \<lparr> segs = [], current = [], timeAccum = num_lit A 0, distAccum = num_lit A 0 \<rparr> lgs = Inr st"
    "current st = [] \<longrightarrow> ss = segs st"
    "current st \<noteq> [] \<longrightarrow>
       (\<exists>seg. closeSegment A len (current st) (timeAccum st) = Inr seg \<and> ss = segs st @ [seg])"
  using assms unfolding segmentByCap_def Let_def
  by (auto split: sum.splits if_splits)

text \<open>
  Whenever \<open>segmentByCap\<close> returns, the legs of its segments, concatenated in order,
  are the input leg list.
\<close>

lemma segmentByCap_concat_legs_returned:
  assumes "segmentByCap A turfLength lgs speed_mps turnTime_s cap_min = Inr ss"
  shows "concat (map legs ss) = lgs"
  using assms
proof (cases rule: segmentByCap_Inr)
  case (1 st)
  from segLoop_legsOf [OF 1(1)] have all: "legsOf st = lgs" by (simp add: legsOf_def)
  show ?thesis
  proof (cases "current st = []")
    case True
    then show ?thesis using all 1(2) by (simp add: legsOf_def)
  next
    case False
    with 1(3) obtain seg where "closeSegment A turfLength (current st) (timeAccum st) = Inr seg"
      and "ss = segs st @ [seg]" by blast
    then show ?thesis using all by (simp add: legsOf_def closeSegment_Inr)
  qed
qed

text \<open>It returns whenever every leg has at least two points.\<close>

lemma connectLegs_loop_length: "length out \<le> length (connectLegs_loop lgs out)"
proof (induction lgs arbitrary: out)
  case Nil
  show ?case by simp
next
  case (Cons leg rest)
  have a: "length out \<le> length (connectLegs_loop rest out)" by (rule Cons.IH)
  have b: "length (out @ leg) \<le> length (connectLegs_loop rest (out @ leg))" by (rule Cons.IH)
  have c: "length (out @ drop 1 leg) \<le> length (connectLegs_loop rest (out @ drop 1 leg))"
    by (rule Cons.IH)
  have d: "length (out @ [leg ! 0] @ drop 1 leg)
      \<le> length (connectLegs_loop rest (out @ [leg ! 0] @ drop 1 leg))"
    by (rule Cons.IH)
  show ?case using a b c d by (auto simp add: Let_def)
qed

lemma connectLegs_two_points:
  assumes "lgs \<noteq> []" and "list_all (\<lambda>leg. 2 \<le> length leg) lgs"
  shows "2 \<le> length (connectLegs lgs)"
proof -
  obtain leg rest where lgs: "lgs = leg # rest" using assms(1) by (cases lgs) auto
  with assms(2) have two: "2 \<le> length leg" by simp
  have "length leg \<le> length (connectLegs_loop rest leg)" by (rule connectLegs_loop_length)
  then show ?thesis using two by (simp add: connectLegs_def lgs)
qed

lemma segStep_returns:
  assumes "list_all (\<lambda>leg. 2 \<le> length leg) (current st)"
  shows "\<exists>st1. segStep A len sp tt b st leg = Inr st1
           \<and> (2 \<le> length leg \<longrightarrow> list_all (\<lambda>leg. 2 \<le> length leg) (current st1))"
proof -
  obtain t d where td: "legTimeAndDist A len sp leg = Inr (t, d)"
    using legTimeAndDist_returns [of A len sp leg] by blast
  show ?thesis
  proof (cases "current st \<noteq> [] \<and> num_gt A (num_add A (num_add A (timeAccum st) t) tt) b")
    case True
    then have "2 \<le> length (connectLegs (current st))"
      using assms by (simp add: connectLegs_two_points)
    from closeSegment_returns [OF this, of A len "timeAccum st"] obtain seg
      where "closeSegment A len (current st) (timeAccum st) = Inr seg" by blast
    then show ?thesis using True td by (simp add: segStep_def Let_def addLeg_def)
  next
    case False
    then show ?thesis using td assms by (auto simp add: segStep_def Let_def addLeg_def)
  qed
qed

lemma segLoop_returns:
  assumes "list_all (\<lambda>leg. 2 \<le> length leg) lgs"
    and "list_all (\<lambda>leg. 2 \<le> length leg) (current st)"
  shows "\<exists>st1. segLoop A len sp tt b st lgs = Inr st1
           \<and> list_all (\<lambda>leg. 2 \<le> length leg) (current st1)"
  using assms
proof (induction lgs arbitrary: st)
  case Nil
  then show ?case by simp
next
  case (Cons leg rest)
  from segStep_returns [OF Cons.prems(2), of A len sp tt b leg] Cons.prems(1)
  obtain st2 where step: "segStep A len sp tt b st leg = Inr st2"
    and cur: "list_all (\<lambda>leg. 2 \<le> length leg) (current st2)" by auto
  from Cons.prems(1) have rest: "list_all (\<lambda>leg. 2 \<le> length leg) rest" by simp
  from Cons.IH [OF rest cur] show ?case using step by simp
qed

lemma segmentByCap_returns:
  assumes "list_all (\<lambda>leg. 2 \<le> length leg) lgs"
  shows "\<exists>ss. segmentByCap A turfLength lgs speed_mps turnTime_s cap_min = Inr ss"
proof -
  let ?b = "num_max A (num_lit A 60) (num_sub A (num_mul A cap_min (num_lit A 60)) (num_lit A 60))"
  let ?st0 = "\<lparr> segs = [], current = [], timeAccum = num_lit A 0, distAccum = num_lit A 0 \<rparr>"
  have "list_all (\<lambda>leg. 2 \<le> length leg) (current ?st0)" by simp
  from segLoop_returns [OF assms this, of A turfLength speed_mps turnTime_s ?b]
  obtain st where loop: "segLoop A turfLength speed_mps turnTime_s ?b ?st0 lgs = Inr st"
    and cur: "list_all (\<lambda>leg. 2 \<le> length leg) (current st)" by blast
  show ?thesis
  proof (cases "current st = []")
    case True
    then show ?thesis using loop by (simp add: segmentByCap_def Let_def)
  next
    case False
    then have "2 \<le> length (connectLegs (current st))"
      using cur by (simp add: connectLegs_two_points)
    from closeSegment_returns [OF this, of A turfLength "timeAccum st"] obtain seg
      where "closeSegment A turfLength (current st) (timeAccum st) = Inr seg" by blast
    then show ?thesis using loop False by (simp add: segmentByCap_def Let_def)
  qed
qed


text \<open>
  C9. Every returned segment holds at least one leg, in every arithmetic, and the empty
  leg list is split into no segment at all.
\<close>

theorem segmentByCap_no_empty_segment:
  "list_all (\<lambda>s. legs s \<noteq> [])
     (segmentsOf (segmentByCap A turfLength lgs speed_mps turnTime_s cap_min))
   \<and> segmentByCap A turfLength [] speed_mps turnTime_s cap_min = Inr []"
proof -
  have first: "list_all (\<lambda>s. legs s \<noteq> [])
     (segmentsOf (segmentByCap A turfLength lgs speed_mps turnTime_s cap_min))"
  proof (cases "segmentByCap A turfLength lgs speed_mps turnTime_s cap_min")
    case (Inl e)
    then show ?thesis by (simp add: segmentsOf_def)
  next
    case (Inr ss)
    then have "list_all (\<lambda>s. legs s \<noteq> []) ss"
    proof (cases rule: segmentByCap_Inr)
      case (1 st)
      have "nonemptySegs (segs st)"
        by (rule segLoop_nonempty [OF 1(1)]) (simp add: nonemptySegs_def)
      then show ?thesis using 1(2,3)
        by (cases "current st = []") (auto simp add: nonemptySegs_def closeSegment_Inr)
    qed
    then show ?thesis using Inr by (simp add: segmentsOf_def)
  qed
  have second: "segmentByCap A turfLength [] speed_mps turnTime_s cap_min = Inr []"
    by (simp add: segmentByCap_def Let_def)
  show ?thesis using first second by simp
qed

subsection \<open>segmentByCap: the budget\<close>

text \<open>
  In exact arithmetic the test and the update of the callback add the same number, and
  the loop keeps its invariant: the time of every segment is the sum over its legs of the
  flight time and the turn time, and it is within the budget unless the segment holds one
  leg.
\<close>

lemma legCost_exact:
  "legTimeAndDist exact len sp leg = Inr (t, d) \<Longrightarrow> legCost len sp tt leg = t + tt"
  by (simp add: legCost_def)

lemma segStep_exact_budgetInv:
  assumes step: "segStep exact len sp tt b st leg = Inr st1"
    and inv: "budgetInv len sp tt b st"
  shows "budgetInv len sp tt b st1"
  using step
proof (cases rule: segStep_Inr)
  case (close t d seg)
  have seg: "legs seg = current st" "time_s seg = timeAccum st"
    using close(4) by (simp_all add: closeSegment_Inr)
  have closed: "withinBudget len sp tt b seg"
    using inv close(2) by (auto simp add: budgetInv_def withinBudget_def seg)
  show ?thesis
    using inv closed close(5) legCost_exact [OF close(1), of tt]
    by (simp add: budgetInv_def addLeg_def legsCost_def exact_def)
next
  case (keep t d)
  show ?thesis
  proof (cases "current st = []")
    case True
    then show ?thesis
      using inv keep(3) legCost_exact [OF keep(1), of tt]
      by (simp add: budgetInv_def addLeg_def legsCost_def exact_def)
  next
    case False
    with keep(2) have "timeAccum st + t + tt \<le> b"
      by (simp add: exact_def not_less)
    then have "timeAccum st + (t + tt) \<le> b" by (simp add: add.assoc)
    then show ?thesis
      using inv keep(3) legCost_exact [OF keep(1), of tt]
      by (simp add: budgetInv_def addLeg_def legsCost_def exact_def)
  qed
qed

lemma segLoop_exact_budgetInv:
  "segLoop exact len sp tt b st lgs = Inr st1 \<Longrightarrow> budgetInv len sp tt b st \<Longrightarrow>
   budgetInv len sp tt b st1"
proof (induction lgs arbitrary: st)
  case Nil
  then show ?case by simp
next
  case (Cons leg rest)
  then obtain st2 where step: "segStep exact len sp tt b st leg = Inr st2"
    and loop: "segLoop exact len sp tt b st2 rest = Inr st1"
    by (auto split: sum.splits)
  show ?case using Cons.IH [OF loop] segStep_exact_budgetInv [OF step Cons.prems(2)] by simp
qed

lemma segmentByCap_within_budget_exact:
  assumes "segmentByCap exact turfLength lgs speed_mps turnTime_s cap_min = Inr ss"
  shows "list_all
     (\<lambda>s. time_s s = legsCost turfLength speed_mps turnTime_s (legs s) \<and>
          (time_s s \<le> max 60 (cap_min * 60 - 60) \<or> length (legs s) = 1)) ss"
  using assms
proof (cases rule: segmentByCap_Inr)
  case (1 st)
  define b where "b = max 60 (cap_min * 60 - 60)"
  have loop: "segLoop exact turfLength speed_mps turnTime_s b
      \<lparr> segs = [], current = [], timeAccum = 0, distAccum = 0 \<rparr> lgs = Inr st"
    using 1(1) by (simp add: exact_def b_def)
  have inv: "budgetInv turfLength speed_mps turnTime_s b st"
    by (rule segLoop_exact_budgetInv [OF loop]) (simp add: budgetInv_def legsCost_def)
  have "list_all (withinBudget turfLength speed_mps turnTime_s b) ss"
  proof (cases "current st = []")
    case True
    then show ?thesis using inv 1(2) by (simp add: budgetInv_def)
  next
    case False
    with 1(3) obtain seg
      where seg: "closeSegment exact turfLength (current st) (timeAccum st) = Inr seg"
      and ss: "ss = segs st @ [seg]" by blast
    have "withinBudget turfLength speed_mps turnTime_s b seg"
      using inv False by (auto simp add: budgetInv_def withinBudget_def closeSegment_Inr [OF seg])
    then show ?thesis using inv ss by (simp add: budgetInv_def)
  qed
  then show ?thesis by (auto simp add: list_all_iff withinBudget_def b_def)
qed

subsection \<open>Evaluating the arithmetic of doubles\<close>

lemma ulpExp_eval:
  assumes "2 powr of_int e \<le> \<bar>x\<bar>" "\<bar>x\<bar> < 2 powr (of_int e + 1)" "- 1022 \<le> e"
  shows "ulpExp x = e - 52"
proof -
  have pos: "0 < \<bar>x\<bar>"
    using assms(1) powr_gt_zero [of 2 "of_int e"] by linarith
  have "\<lfloor>log 2 \<bar>x\<bar>\<rfloor> = e"
    using assms(1,2) pos by (simp add: floor_log_eq_powr_iff)
  then show ?thesis using assms(3) by (simp add: ulpExp_def)
qed

lemma roundReal_eval:
  assumes "2 powr of_int e \<le> \<bar>x\<bar>" "\<bar>x\<bar> < 2 powr (of_int e + 1)" "- 1022 \<le> e"
  shows "roundReal x = of_int (rne (x / 2 powr of_int (e - 52))) * 2 powr of_int (e - 52)"
  by (simp add: roundReal_def ulpExp_eval [OF assms])

lemma toF64_eval:
  assumes "2 powr of_int e \<le> \<bar>x\<bar>" "\<bar>x\<bar> < 2 powr (of_int e + 1)" "- 1022 \<le> e"
  shows "toF64 x =
     (let r = of_int (rne (x / 2 powr of_int (e - 52))) * 2 powr of_int (e - 52)
      in if 2 ^ 1024 \<le> \<bar>r\<bar> then (if 0 < x then Infinity else NegInfinity)
         else if r = 0 then (if 0 \<le> x then Num 0 else NegZero)
         else Num r)"
  by (simp add: toF64_def roundReal_eval [OF assms])





















subsection \<open>makePlan\<close>

lemma wpItems_append:
  "wpItems r c (ps @ qs) = wpItems r c ps @ wpItems r (c + int (length ps)) qs"
  by (induction ps arbitrary: c) (simp_all add: add.assoc)

lemma foldl_pushWp:
  "foldl (pushWp r) (its, c) ps = (its @ wpItems r c ps, c + int (length ps))"
proof (induction ps arbitrary: its c)
  case Nil
  show ?case by simp
next
  case (Cons p ps)
  have step: "pushWp r (its, c) p = (its @ [fst (wp (fst p) (snd p) r c)], c + 1)"
    by (simp add: pushWp_def wp_def nextId_def split_beta)
  show ?case
    by (simp add: step Cons.IH add.assoc)
qed

lemma foldl_pushLine:
  "foldl (pushLine r) (its, c) ls =
     (its @ wpItems r c (concat ls), c + int (length (concat ls)))"
proof (induction ls arbitrary: its c)
  case Nil
  show ?case by simp
next
  case (Cons l ls)
  have step: "pushLine r (its, c) l = (its @ wpItems r c l, c + int (length l))"
    by (simp add: pushLine_def foldl_pushWp)
  show ?case
    by (simp add: step Cons.IH wpItems_append add.assoc)
qed

lemma items_makePlan:
  "items (mission (fst (makePlan c0 opts))) =
     fst (camTrigDist (trigger_m opts) 1) # wpItems (relAlt_m opts) 2 (concat (gridLines opts))"
proof -
  have cam: "snd (camTrigDist (trigger_m opts) 1) = 2"
    by (simp add: camTrigDist_def nextId_def)
  have "foldl (pushLine (relAlt_m opts))
          ([fst (camTrigDist (trigger_m opts) 1)], snd (camTrigDist (trigger_m opts) 1))
          (gridLines opts) =
        ([fst (camTrigDist (trigger_m opts) 1)] @ wpItems (relAlt_m opts) 2 (concat (gridLines opts)),
         2 + int (length (concat (gridLines opts))))"
    unfolding cam by (rule foldl_pushLine)
  then show ?thesis
    by (simp add: makePlan_def Let_def split_beta)
qed

lemma wpItems_command: "map command (wpItems r c ps) = replicate (length ps) 16"
  by (induction ps arbitrary: c) (simp_all add: wp_def nextId_def NAV_WAYPOINT_def)

lemma wpItems_frame: "map frame (wpItems r c ps) = replicate (length ps) 3"
  by (induction ps arbitrary: c) (simp_all add: wp_def nextId_def GLOBAL_RELATIVE_ALT_def)

lemma wpItems_autoContinue: "map autoContinue (wpItems r c ps) = replicate (length ps) True"
  by (induction ps arbitrary: c) (simp_all add: wp_def nextId_def)

lemma wpItems_params:
  "map params (wpItems r c ps) = map (\<lambda>p. [0, 0, 0, 0, fst p, snd p, r]) ps"
  by (induction ps arbitrary: c) (simp_all add: wp_def nextId_def)

lemma wpItems_doJumpId:
  "map doJumpId (wpItems r c ps) = map (\<lambda>k. c + int k) [0..<length ps]"
proof (induction ps arbitrary: c)
  case Nil
  show ?case by simp
next
  case (Cons p ps)
  have "map (\<lambda>k. c + int k) [0..<Suc (length ps)] =
        c # map (\<lambda>k. c + 1 + int k) [0..<length ps]"
    by (simp add: upt_conv_Cons map_Suc_upt [symmetric] del: upt_Suc)
  then show ?case
    by (simp add: Cons.IH wp_def nextId_def del: upt_Suc)
qed

text \<open>
  C2. Item 0 is the camera trigger distance command (command 206, parameters
  \<open>[trigger_m, 0, 0, 0, 0, 0, 0]\<close>); it is followed by one waypoint per point of the
  concatenated legs, in order and without deduplication, each with command 16, frame 3
  (global, relative altitude) and parameters \<open>[0, 0, 0, 0, lat, lon, relAlt_m]\<close>; every
  item has \<open>autoContinue\<close> set; there are one plus the number of points items; and the
  planned home position is \<open>[homeLat, homeLon, 0]\<close>.
\<close>

theorem makePlan_items:
  fixes opts :: MakePlanOptions and c0 :: int
  defines "its \<equiv> items (mission (fst (makePlan c0 opts)))"
    and "pts \<equiv> concat (gridLines opts)"
  shows "map command its = 206 # replicate (length pts) 16
    \<and> map params its =
        [trigger_m opts, 0, 0, 0, 0, 0, 0] #
        map (\<lambda>p. [0, 0, 0, 0, fst p, snd p, relAlt_m opts]) pts
    \<and> map frame (tl its) = replicate (length pts) 3
    \<and> map autoContinue its = replicate (1 + length pts) True
    \<and> length its = 1 + sum_list (map length (gridLines opts))
    \<and> plannedHomePosition (mission (fst (makePlan c0 opts))) = [homeLat opts, homeLon opts, 0]"
proof -
  have its: "its = fst (camTrigDist (trigger_m opts) 1) # wpItems (relAlt_m opts) 2 pts"
    unfolding its_def pts_def by (rule items_makePlan)
  have len: "length (wpItems (relAlt_m opts) 2 pts) = length pts"
    using wpItems_command [of "relAlt_m opts" 2 pts] by (metis length_map length_replicate)
  have c1: "map command its = 206 # replicate (length pts) 16"
    by (simp add: its wpItems_command camTrigDist_def nextId_def DO_SET_CAM_TRIGG_DIST_def)
  have c2: "map params its = [trigger_m opts, 0, 0, 0, 0, 0, 0] #
        map (\<lambda>p. [0, 0, 0, 0, fst p, snd p, relAlt_m opts]) pts"
    by (simp add: its wpItems_params camTrigDist_def nextId_def)
  have c3: "map frame (tl its) = replicate (length pts) 3"
    by (simp add: its wpItems_frame)
  have c4: "map autoContinue its = replicate (1 + length pts) True"
    by (simp add: its wpItems_autoContinue camTrigDist_def nextId_def)
  have "length its = 1 + length pts"
    by (simp add: its len)
  then have c5: "length its = 1 + sum_list (map length (gridLines opts))"
    by (simp add: pts_def length_concat)
  have c6: "plannedHomePosition (mission (fst (makePlan c0 opts))) = [homeLat opts, homeLon opts, 0]"
    by (simp add: makePlan_def Let_def split_beta)
  show ?thesis using c1 c2 c3 c4 c5 c6 by simp
qed

text \<open>
  C5. The item at position \<open>k\<close> has \<open>doJumpId = k + 1\<close>, so the identifiers are the
  consecutive integers from 1; and the plan does not depend on the value the counter had
  before the call, because the call starts by setting it to 1.
\<close>

theorem makePlan_doJumpId:
  "map doJumpId (items (mission (fst (makePlan c0 opts)))) =
     map (\<lambda>k. int k + 1) [0..<length (items (mission (fst (makePlan c0 opts))))]
   \<and> fst (makePlan c0 opts) = fst (makePlan c1 opts)"
proof -
  define pts where "pts = concat (gridLines opts)"
  have its: "items (mission (fst (makePlan c0 opts))) =
      fst (camTrigDist (trigger_m opts) 1) # wpItems (relAlt_m opts) 2 pts"
    unfolding pts_def by (rule items_makePlan)
  have len: "length (wpItems (relAlt_m opts) 2 pts) = length pts"
    using wpItems_command [of "relAlt_m opts" 2 pts] by (metis length_map length_replicate)
  have "map (\<lambda>k. int k + 1) [0..<Suc (length pts)] =
        1 # map (\<lambda>k. 2 + int k) [0..<length pts]"
    by (simp add: upt_conv_Cons map_Suc_upt [symmetric] del: upt_Suc)
  then have ids: "map doJumpId (items (mission (fst (makePlan c0 opts)))) =
     map (\<lambda>k. int k + 1) [0..<length (items (mission (fst (makePlan c0 opts))))]"
    by (simp add: its len wpItems_doJumpId camTrigDist_def nextId_def del: upt_Suc)
  have same: "fst (makePlan c0 opts) = fst (makePlan c1 opts)"
    by (simp add: makePlan_def Let_def split_beta)
  show ?thesis using ids same by simp
qed

text \<open>
  A run of the model: two legs of three points and a trigger distance of 10 give seven
  items with the identifiers 1 to 7, whatever the counter held before.
\<close>

lemma makePlan_example:
  "map doJumpId (items (mission (fst (makePlan 99
      \<lparr> homeLat = 40, homeLon = 8, relAlt_m = 100, groundspeed_mps = Some 8,
        hover_mps = None, trigger_m = 10,
        gridLines = [[(0, 0), (0, 1), (0, 2)], [(1, 2), (1, 1), (1, 0)]],
        firmwareType = None, vehicleType = None \<rparr>)))) = [1, 2, 3, 4, 5, 6, 7]
   \<and> map command (items (mission (fst (makePlan 99
      \<lparr> homeLat = 40, homeLon = 8, relAlt_m = 100, groundspeed_mps = Some 8,
        hover_mps = None, trigger_m = 10,
        gridLines = [[(0, 0), (0, 1), (0, 2)], [(1, 2), (1, 1), (1, 0)]],
        firmwareType = None, vehicleType = None \<rparr>)))) = [206, 16, 16, 16, 16, 16, 16]"
  by (simp add: makePlan_def pushLine_def pushWp_def wp_def camTrigDist_def nextId_def
        NAV_WAYPOINT_def DO_SET_CAM_TRIGG_DIST_def Let_def)



subsection \<open>spacingFromOverlap: the rounding of each operation\<close>

text \<open>
  A rounded result that is normal differs from the exact one by at most \<open>2\<close> to the
  power \<open>-53\<close> of its own magnitude.
\<close>

lemma rne_close: "\<bar>of_int (rne y) - y\<bar> \<le> 1 / 2"
  unfolding rne_def Let_def by (auto simp add: abs_if) linarith+

lemma rne_abs_ge:
  assumes "of_int n \<le> \<bar>y\<bar>" "0 \<le> n"
  shows "n \<le> \<bar>rne y\<bar>"
proof (cases "0 \<le> y")
  case True
  then have "of_int n \<le> y" using assms by simp
  then have "n \<le> \<lfloor>y\<rfloor>" by (simp add: le_floor_iff)
  moreover have "\<lfloor>y\<rfloor> \<le> rne y" by (simp add: rne_def Let_def)
  ultimately show ?thesis by linarith
next
  case False
  then have le: "y \<le> - of_int n" using assms by simp
  have "rne y \<le> - n"
  proof (cases "y = - of_int n")
    case True
    then show ?thesis by (simp add: rne_def Let_def)
  next
    case ne: False
    with le have "y < of_int (- n)" by simp
    then have "\<lfloor>y\<rfloor> < - n" by (simp only: floor_less_iff)
    moreover have "rne y \<le> \<lfloor>y\<rfloor> + 1" by (simp add: rne_def Let_def)
    ultimately show ?thesis by linarith
  qed
  then show ?thesis using assms(2) by linarith
qed

lemma roundReal_accurate:
  assumes big: "2 powr (- 1022) \<le> \<bar>roundReal x\<bar>"
  shows "\<bar>x - roundReal x\<bar> \<le> 2 powr (- 53) * \<bar>roundReal x\<bar>"
proof -
  define k where "k = ulpExp x"
  define p :: real where "p = 2 powr of_int k"
  define y where "y = x / p"
  have p: "0 < p" by (simp add: p_def)
  have r: "roundReal x = of_int (rne y) * p"
    by (simp add: roundReal_def k_def p_def y_def)
  have x: "x = y * p" using p by (simp add: y_def)
  have "\<bar>x - roundReal x\<bar> = \<bar>y - of_int (rne y)\<bar> * p"
    unfolding r using p by (subst x) (simp add: abs_mult left_diff_distrib [symmetric])
  also have "\<dots> \<le> 1 / 2 * p"
    using rne_close [of y] p by (intro mult_right_mono) (simp_all add: abs_minus_commute)
  finally have err: "\<bar>x - roundReal x\<bar> \<le> p / 2" by simp
  have lower: "2 powr 52 * p \<le> \<bar>roundReal x\<bar>"
  proof (cases "\<lfloor>log 2 \<bar>x\<bar>\<rfloor> \<le> - 1022")
    case True
    then have k1074: "k = - 1074" by (simp add: k_def ulpExp_def)
    have "(2 :: real) powr 52 * 2 powr of_int k = 2 powr (52 + of_int k)"
      by (simp only: powr_add)
    also have "52 + real_of_int k = - 1022" using k1074 by simp
    finally have "2 powr 52 * p = 2 powr (- 1022)"
      by (simp only: p_def)
    then show ?thesis using big by simp
  next
    case False
    then have k: "of_int k + 52 = of_int \<lfloor>log 2 \<bar>x\<bar>\<rfloor>" by (simp add: k_def ulpExp_def)
    have x0: "x \<noteq> 0"
    proof
      assume "x = 0"
      then have "roundReal x = 0" by (simp add: roundReal_def rne_def)
      with big powr_gt_zero [of 2 "- 1022"] show False by simp
    qed
    have "2 powr (of_int \<lfloor>log 2 \<bar>x\<bar>\<rfloor>) \<le> 2 powr (log 2 \<bar>x\<bar>)"
      by (intro powr_mono) simp_all
    also have "\<dots> = \<bar>x\<bar>" using x0 by simp
    finally have "2 powr (of_int k + 52) \<le> \<bar>x\<bar>" by (simp only: k)
    then have "2 powr 52 * p \<le> \<bar>x\<bar>" by (simp add: p_def powr_add mult.commute)
    then have "2 powr 52 \<le> \<bar>y\<bar>" using p by (simp add: y_def pos_le_divide_eq abs_mult)
    then have "of_int (2 ^ 52) \<le> \<bar>y\<bar>" by simp
    from rne_abs_ge [OF this] have "(2 :: int) ^ 52 \<le> \<bar>rne y\<bar>" by simp
    then have "(2 :: real) ^ 52 \<le> \<bar>of_int (rne y)\<bar>"
      by (metis of_int_abs of_int_le_iff of_int_numeral of_int_power)
    then have "2 powr 52 * p \<le> \<bar>of_int (rne y)\<bar> * p"
      using p by (intro mult_right_mono) simp_all
    then show ?thesis using p by (simp add: r abs_mult)
  qed
  have "p / 2 = 2 powr (- 53) * (2 powr 52 * p)"
    by (simp add: powr_minus_divide)
  also have "\<dots> \<le> 2 powr (- 53) * \<bar>roundReal x\<bar>"
    using lower by (intro mult_left_mono) simp_all
  finally show ?thesis using err by linarith
qed

lemma normal_nonzero: "2 powr (- 1022) \<le> \<bar>r\<bar> \<Longrightarrow> r \<noteq> (0 :: real)"
  using powr_gt_zero [of 2 "- 1022"] by auto

lemma toF64_accurate:
  assumes "toF64 x = Num r" and "2 powr (- 1022) \<le> \<bar>r\<bar>"
  shows "\<bar>x - r\<bar> \<le> 2 powr (- 53) * \<bar>r\<bar>"
proof -
  have "r \<noteq> 0" using assms(2) by (rule normal_nonzero)
  then have "r = roundReal x"
    using assms(1) by (auto simp add: toF64_def Let_def split: if_splits)
  then show ?thesis using roundReal_accurate [of x] assms(2) by simp
qed

lemma f64_mul_accurate:
  assumes "f64_mul a b = Num r" and "2 powr (- 1022) \<le> \<bar>r\<bar>"
  shows "\<bar>fv a * fv b - r\<bar> \<le> 2 powr (- 53) * \<bar>r\<bar>"
proof -
  have "r \<noteq> 0" using assms(2) by (rule normal_nonzero)
  then have "toF64 (fv a * fv b) = Num r"
    using assms(1)
    by (auto simp add: f64_mul_def signedInf_def signedZero_def split: if_splits)
  then show ?thesis using assms(2) by (rule toF64_accurate)
qed

lemma f64_div_accurate:
  assumes "f64_div a b = Num r" and "2 powr (- 1022) \<le> \<bar>r\<bar>"
  shows "\<bar>fv a / fv b - r\<bar> \<le> 2 powr (- 53) * \<bar>r\<bar>"
proof -
  have "r \<noteq> 0" using assms(2) by (rule normal_nonzero)
  then have "toF64 (fv a / fv b) = Num r"
    using assms(1)
    by (auto simp add: f64_div_def signedInf_def signedZero_def split: if_splits)
  then show ?thesis using assms(2) by (rule toF64_accurate)
qed

lemma fv_uminus: "fv (f64_uminus b) = - fv b"
  by (cases b) simp_all

lemma f64_sub_accurate:
  assumes "f64_sub a b = Num r" and "2 powr (- 1022) \<le> \<bar>r\<bar>"
  shows "\<bar>fv a - fv b - r\<bar> \<le> 2 powr (- 53) * \<bar>r\<bar>"
proof -
  have "r \<noteq> 0" using assms(2) by (rule normal_nonzero)
  then have "toF64 (fv a + fv (f64_uminus b)) = Num r"
    using assms(1)
    by (auto simp add: f64_sub_def f64_add_def isInf_def signedZero_def split: if_splits)
  then have "toF64 (fv a - fv b) = Num r" by (simp add: fv_uminus)
  then show ?thesis using assms(2) by (rule toF64_accurate)
qed


lemma ratio_bounds:
  assumes "\<bar>x - r\<bar> \<le> u * \<bar>r\<bar>" and "r \<noteq> (0 :: real)"
  shows "1 - u \<le> x / r" and "x / r \<le> 1 + u"
proof -
  have "\<bar>x / r - 1\<bar> = \<bar>x - r\<bar> / \<bar>r\<bar>"
    using assms(2) by (simp add: diff_divide_distrib abs_divide [symmetric])
  also have "\<dots> \<le> u"
    using assms by (simp add: pos_divide_le_eq)
  finally have "\<bar>x / r - 1\<bar> \<le> u" .
  then show "1 - u \<le> x / r" and "x / r \<le> 1 + u" by linarith+
qed

lemma prod_between:
  fixes a b lo hi lo' hi' :: real
  assumes "lo \<le> a" "a \<le> hi" "lo' \<le> b" "b \<le> hi'" "0 \<le> lo" "0 \<le> lo'"
  shows "lo * lo' \<le> a * b" and "a * b \<le> hi * hi'"
proof -
  have a0: "0 \<le> a" and b0: "0 \<le> b" using assms by linarith+
  show "lo * lo' \<le> a * b" using assms(1,3) a0 assms(6) by (rule mult_mono)
  show "a * b \<le> hi * hi'"
  proof (rule mult_mono)
    show "a \<le> hi" by (rule assms(2))
    show "b \<le> hi'" by (rule assms(4))
    show "0 \<le> hi" using a0 assms(2) by linarith
    show "0 \<le> b" by (rule b0)
  qed
qed

lemma rho_bounds:
  fixes q1 q2 q3 q4 q5 q6 :: real
  defines "u \<equiv> 1 / 2 ^ 53"
  assumes q1: "1 - u \<le> q1" "q1 \<le> 1 + u"
    and q2: "1 - u \<le> q2" "q2 \<le> 1 + u"
    and q3: "1 - u \<le> q3" "q3 \<le> 1 + u"
    and q4: "1 - u \<le> q4" "q4 \<le> 1 + u"
    and q5: "1 - u \<le> q5" "q5 \<le> 1 + u"
    and q6: "1 - u \<le> q6" "q6 \<le> 1 + u"
  shows "\<bar>q6 * q4 * q2 * q1 * q5 / q3 - 1\<bar> \<le> 1 / 2 ^ 50"
proof -
  have lo: "0 \<le> 1 - u" by (simp add: u_def)
  have lo_pos: "0 < 1 - u" by (simp add: u_def)
  note a = prod_between [OF q6 q4 lo lo]
  have lo2: "0 \<le> (1 - u) * (1 - u)" using lo by simp
  note b = prod_between [OF a q2 lo2 lo]
  have lo3: "0 \<le> (1 - u) * (1 - u) * (1 - u)" using lo by simp
  note c = prod_between [OF b q1 lo3 lo]
  have lo4: "0 \<le> (1 - u) * (1 - u) * (1 - u) * (1 - u)" using lo by simp
  note d = prod_between [OF c q5 lo4 lo]
  define P where "P = q6 * q4 * q2 * q1 * q5"
  have Plo: "(1 - u) * (1 - u) * (1 - u) * (1 - u) * (1 - u) \<le> P"
    and Phi: "P \<le> (1 + u) * (1 + u) * (1 + u) * (1 + u) * (1 + u)"
    using d by (simp_all add: P_def)
  have q3pos: "0 < q3" using q3(1) lo_pos by linarith
  have Ppos: "0 \<le> P" using Plo lo by (meson lo4 mult_nonneg_nonneg order_trans)
  have up: "P / q3 \<le> (1 + u) * (1 + u) * (1 + u) * (1 + u) * (1 + u) / (1 - u)"
    using Phi q3(1) lo_pos Ppos by (intro frac_le) linarith+
  have hi5: "0 \<le> (1 - u) * (1 - u) * (1 - u) * (1 - u) * (1 - u)" using lo by simp
  have down: "(1 - u) * (1 - u) * (1 - u) * (1 - u) * (1 - u) / (1 + u) \<le> P / q3"
    using Plo q3(2) q3pos hi5 by (intro frac_le) linarith+
  have n1: "(1 + u) * (1 + u) * (1 + u) * (1 + u) * (1 + u) / (1 - u) \<le> 1 + 1 / 2 ^ 50"
    by (simp add: u_def field_simps)
  have n2: "1 - 1 / 2 ^ 50 \<le> (1 - u) * (1 - u) * (1 - u) * (1 - u) * (1 - u) / (1 + u)"
    by (simp add: u_def field_simps)
  have "\<bar>P / q3 - 1\<bar> \<le> 1 / 2 ^ 50"
    using up down n1 n2 by linarith
  then show ?thesis by (simp add: P_def)
qed

lemma spacing_chain:
  fixes h s f ov r1 r2 r3 r4 r5 r6 :: real
  assumes e1: "\<bar>s / 1000 - r1\<bar> \<le> 2 powr (- 53) * \<bar>r1\<bar>"
    and e2: "\<bar>h * r1 - r2\<bar> \<le> 2 powr (- 53) * \<bar>r2\<bar>"
    and e3: "\<bar>f / 1000 - r3\<bar> \<le> 2 powr (- 53) * \<bar>r3\<bar>"
    and e4: "\<bar>r2 / r3 - r4\<bar> \<le> 2 powr (- 53) * \<bar>r4\<bar>"
    and e5: "\<bar>1 - ov - r5\<bar> \<le> 2 powr (- 53) * \<bar>r5\<bar>"
    and e6: "\<bar>r4 * r5 - r6\<bar> \<le> 2 powr (- 53) * \<bar>r6\<bar>"
    and nz: "r1 \<noteq> 0" "r2 \<noteq> 0" "r3 \<noteq> 0" "r4 \<noteq> 0" "r5 \<noteq> 0" "r6 \<noteq> 0"
  shows "\<bar>h * s / f * (1 - ov) - r6\<bar> \<le> 2 powr (- 50) * \<bar>r6\<bar>"
proof -
  have u: "(2 :: real) powr (- 53) = 1 / 2 ^ 53" by (simp add: powr_minus_divide)
  have u50: "(2 :: real) powr (- 50) = 1 / 2 ^ 50" by (simp add: powr_minus_divide)
  define q1 where "q1 = s / 1000 / r1"
  define q2 where "q2 = h * r1 / r2"
  define q3 where "q3 = f / 1000 / r3"
  define q4 where "q4 = r2 / r3 / r4"
  define q5 where "q5 = (1 - ov) / r5"
  define q6 where "q6 = r4 * r5 / r6"
  note b1 = ratio_bounds [OF e1 [unfolded u] nz(1), folded q1_def]
  note b2 = ratio_bounds [OF e2 [unfolded u] nz(2), folded q2_def]
  note b3 = ratio_bounds [OF e3 [unfolded u] nz(3), folded q3_def]
  note b4 = ratio_bounds [OF e4 [unfolded u] nz(4), folded q4_def]
  note b5 = ratio_bounds [OF e5 [unfolded u] nz(5), folded q5_def]
  note b6 = ratio_bounds [OF e6 [unfolded u] nz(6), folded q6_def]
  have rho: "\<bar>q6 * q4 * q2 * q1 * q5 / q3 - 1\<bar> \<le> 1 / 2 ^ 50"
    by (rule rho_bounds [OF b1 b2 b3 b4 b5 b6])
  have q3pos: "q3 \<noteq> 0" using b3(1) by auto
  then have f0: "f \<noteq> 0" by (auto simp add: q3_def)
  have eq: "h * s / f * (1 - ov) = r6 * (q6 * q4 * q2 * q1 * q5 / q3)"
    using nz f0 by (simp add: q1_def q2_def q3_def q4_def q5_def q6_def field_simps)
  have "\<bar>h * s / f * (1 - ov) - r6\<bar> = \<bar>r6\<bar> * \<bar>q6 * q4 * q2 * q1 * q5 / q3 - 1\<bar>"
    unfolding eq by (simp add: abs_mult [symmetric] right_diff_distrib)
  also have "\<dots> \<le> \<bar>r6\<bar> * (1 / 2 ^ 50)"
    using rho by (intro mult_left_mono) simp_all
  finally show ?thesis by (simp add: u50 mult.commute)
qed

lemma normalF64_Num:
  assumes "normalF64 a"
  obtains r where "a = Num r" and "2 powr (- 1022) \<le> \<bar>r\<bar>"
  using assms by (cases a) simp_all

lemma toF64_1000: "toF64 1000 = Num 1000"
  by (subst toF64_eval [where e = "9"]) (simp_all add: rne_def Let_def powr_minus_divide)

lemma toF64_1: "toF64 1 = Num 1"
  by (subst toF64_eval [where e = "0"]) (simp_all add: rne_def Let_def powr_minus_divide)

lemma spacingSteps_accurate:
  assumes normal: "list_all normalF64 (spacingSteps h sensor focal lap)"
  shows "\<bar>fv h * fv sensor / fv focal * (1 - fv lap) - fv (spacingSteps h sensor focal lap ! 5)\<bar>
           \<le> 2 powr (- 50) * \<bar>fv (spacingSteps h sensor focal lap ! 5)\<bar>"
proof -
  define a where "a = f64_div sensor (Num 1000)"
  define b where "b = f64_mul h a"
  define c where "c = f64_div focal (Num 1000)"
  define g where "g = f64_div b c"
  define w where "w = f64_sub (Num 1) lap"
  define r where "r = f64_mul g w"
  have steps: "spacingSteps h sensor focal lap = [a, b, c, g, w, r]"
    by (simp add: spacingSteps_def Let_def toF64_1000 toF64_1 a_def b_def c_def g_def w_def r_def)
  have n: "normalF64 a" "normalF64 b" "normalF64 c" "normalF64 g" "normalF64 w" "normalF64 r"
    using normal unfolding steps by simp_all
  from n(1) obtain r1 where a: "a = Num r1" and n1: "2 powr (- 1022) \<le> \<bar>r1\<bar>"
    by (rule normalF64_Num)
  from n(2) obtain r2 where b: "b = Num r2" and n2: "2 powr (- 1022) \<le> \<bar>r2\<bar>"
    by (rule normalF64_Num)
  from n(3) obtain r3 where c: "c = Num r3" and n3: "2 powr (- 1022) \<le> \<bar>r3\<bar>"
    by (rule normalF64_Num)
  from n(4) obtain r4 where g: "g = Num r4" and n4: "2 powr (- 1022) \<le> \<bar>r4\<bar>"
    by (rule normalF64_Num)
  from n(5) obtain r5 where w: "w = Num r5" and n5: "2 powr (- 1022) \<le> \<bar>r5\<bar>"
    by (rule normalF64_Num)
  from n(6) obtain r6 where r: "r = Num r6" and n6: "2 powr (- 1022) \<le> \<bar>r6\<bar>"
    by (rule normalF64_Num)
  have e1: "\<bar>fv sensor / 1000 - r1\<bar> \<le> 2 powr (- 53) * \<bar>r1\<bar>"
    using f64_div_accurate [of sensor "Num 1000" r1] a n1 by (simp add: a_def)
  have e2: "\<bar>fv h * r1 - r2\<bar> \<le> 2 powr (- 53) * \<bar>r2\<bar>"
    using f64_mul_accurate [of h "Num r1" r2] b n2 by (simp add: b_def a)
  have e3: "\<bar>fv focal / 1000 - r3\<bar> \<le> 2 powr (- 53) * \<bar>r3\<bar>"
    using f64_div_accurate [of focal "Num 1000" r3] c n3 by (simp add: c_def)
  have e4: "\<bar>r2 / r3 - r4\<bar> \<le> 2 powr (- 53) * \<bar>r4\<bar>"
    using f64_div_accurate [of "Num r2" "Num r3" r4] g n4 by (simp add: g_def b c)
  have e5: "\<bar>1 - fv lap - r5\<bar> \<le> 2 powr (- 53) * \<bar>r5\<bar>"
    using f64_sub_accurate [of "Num 1" lap r5] w n5 by (simp add: w_def)
  have e6: "\<bar>r4 * r5 - r6\<bar> \<le> 2 powr (- 53) * \<bar>r6\<bar>"
    using f64_mul_accurate [of "Num r4" "Num r5" r6] r n6 by (simp add: r_def g w)
  have "\<bar>fv h * fv sensor / fv focal * (1 - fv lap) - r6\<bar> \<le> 2 powr (- 50) * \<bar>r6\<bar>"
    by (rule spacing_chain [OF e1 e2 e3 e4 e5 e6])
       (rule normal_nonzero, fact)+
  then show ?thesis by (simp add: steps r)
qed

lemma spacingFromOverlap_steps:
  "along_m (spacingFromOverlap ieee h cam ov sl) =
     spacingSteps h (sensorHeight_mm cam) (focalLength_mm cam) ov ! 5"
  "across_m (spacingFromOverlap ieee h cam ov sl) =
     spacingSteps h (sensorWidth_mm cam) (focalLength_mm cam) sl ! 5"
  by (simp_all add: spacingFromOverlap_def footprintMeters_def spacingSteps_def Let_def ieee_def)

text \<open>
  C8, as amended. The spacings are the results of the six double operations of
  \<open>spacingSteps\<close>. When the six results are normal, the along-track spacing is within a
  relative error of \<open>2\<close> to the power \<open>-50\<close> of
  \<open>(height * sensorHeight / focalLength) * (1 - overlap)\<close>, the millimetres cancelling
  in the exact formula; and the across-track spacing likewise, with the sensor width and
  the sidelap.
\<close>

theorem spacingFromOverlap_rounded:
  "along_m (spacingFromOverlap ieee h cam ov sl) =
     spacingSteps h (sensorHeight_mm cam) (focalLength_mm cam) ov ! 5
   \<and> across_m (spacingFromOverlap ieee h cam ov sl) =
     spacingSteps h (sensorWidth_mm cam) (focalLength_mm cam) sl ! 5
   \<and> (list_all normalF64 (spacingSteps h (sensorHeight_mm cam) (focalLength_mm cam) ov) \<longrightarrow>
        \<bar>fv h * fv (sensorHeight_mm cam) / fv (focalLength_mm cam) * (1 - fv ov)
           - fv (along_m (spacingFromOverlap ieee h cam ov sl))\<bar>
          \<le> 2 powr (- 50) * \<bar>fv (along_m (spacingFromOverlap ieee h cam ov sl))\<bar>)
   \<and> (list_all normalF64 (spacingSteps h (sensorWidth_mm cam) (focalLength_mm cam) sl) \<longrightarrow>
        \<bar>fv h * fv (sensorWidth_mm cam) / fv (focalLength_mm cam) * (1 - fv sl)
           - fv (across_m (spacingFromOverlap ieee h cam ov sl))\<bar>
          \<le> 2 powr (- 50) * \<bar>fv (across_m (spacingFromOverlap ieee h cam ov sl))\<bar>)"
  using spacingSteps_accurate [of h "sensorHeight_mm cam" "focalLength_mm cam" ov]
    spacingSteps_accurate [of h "sensorWidth_mm cam" "focalLength_mm cam" sl]
  by (simp add: spacingFromOverlap_steps)

text \<open>
  The operations at the defaults of the application: height 100 m, the first camera
  preset, overlap 0.75, sidelap 0.7.
\<close>

lemma dbl_sp_1: "toF64 (63 / 10) = Num (7093169413108531 / 1125899906842624)"
  by (subst toF64_eval [where e = "2"]) (simp_all add: rne_def Let_def powr_minus_divide)

lemma dbl_sp_2: "toF64 (47 / 10) = Num (5291729562160333 / 1125899906842624)"
  by (subst toF64_eval [where e = "2"]) (simp_all add: rne_def Let_def powr_minus_divide)

lemma dbl_sp_3: "toF64 (9 / 2) = Num (9 / 2)"
  by (subst toF64_eval [where e = "2"]) (simp_all add: rne_def Let_def powr_minus_divide)

lemma dbl_sp_4: "toF64 (3 / 4) = Num (3 / 4)"
  by (subst toF64_eval [where e = "-1"]) (simp_all add: rne_def Let_def powr_minus_divide)

lemma dbl_sp_5: "toF64 (7 / 10) = Num (3152519739159347 / 4503599627370496)"
  by (subst toF64_eval [where e = "-1"]) (simp_all add: rne_def Let_def powr_minus_divide)

lemma dbl_sp_6: "toF64 1000 = Num 1000"
  by (subst toF64_eval [where e = "9"]) (simp_all add: rne_def Let_def powr_minus_divide)

lemma dbl_sp_7: "toF64 1 = Num 1"
  by (subst toF64_eval [where e = "0"]) (simp_all add: rne_def Let_def powr_minus_divide)

lemma dbl_sp_8: "toF64 4000 = Num 4000"
  by (subst toF64_eval [where e = "11"]) (simp_all add: rne_def Let_def powr_minus_divide)

lemma dbl_sp_9: "toF64 3000 = Num 3000"
  by (subst toF64_eval [where e = "11"]) (simp_all add: rne_def Let_def powr_minus_divide)

lemma dbl_sp_10: "f64_div (Num (5291729562160333 / 1125899906842624)) (Num 1000) = Num (5418731071652181 / 1152921504606846976)"
  by (simp add: f64_div_def isInf_def isZero_def)
     (subst toF64_eval [where e = "-8"], simp_all add: rne_def Let_def powr_minus_divide)

lemma dbl_sp_11: "f64_mul (Num 100) (Num (5418731071652181 / 1152921504606846976)) = Num (8466767299456533 / 18014398509481984)"
  by (simp add: f64_mul_def isInf_def isZero_def)
     (subst toF64_eval [where e = "-2"], simp_all add: rne_def Let_def powr_minus_divide)

lemma dbl_sp_12: "f64_div (Num (9 / 2)) (Num 1000) = Num (5188146770730811 / 1152921504606846976)"
  by (simp add: f64_div_def isInf_def isZero_def)
     (subst toF64_eval [where e = "-8"], simp_all add: rne_def Let_def powr_minus_divide)

lemma dbl_sp_13: "f64_div (Num (8466767299456533 / 18014398509481984)) (Num (5188146770730811 / 1152921504606846976)) = Num (918703048986169 / 8796093022208)"
  by (simp add: f64_div_def isInf_def isZero_def)
     (subst toF64_eval [where e = "6"], simp_all add: rne_def Let_def powr_minus_divide)

lemma dbl_sp_14: "f64_sub (Num 1) (Num (3 / 4)) = Num (1 / 4)"
  by (simp add: f64_sub_def f64_add_def isInf_def isZero_def)
     (subst toF64_eval [where e = "-2"], simp_all add: rne_def Let_def powr_minus_divide)

lemma dbl_sp_15: "f64_mul (Num (918703048986169 / 8796093022208)) (Num (1 / 4)) = Num (918703048986169 / 35184372088832)"
  by (simp add: f64_mul_def isInf_def isZero_def)
     (subst toF64_eval [where e = "4"], simp_all add: rne_def Let_def powr_minus_divide)

lemma dbl_sp_16: "f64_div (Num (7093169413108531 / 1125899906842624)) (Num 1000) = Num (226981421219473 / 36028797018963968)"
  by (simp add: f64_div_def isInf_def isZero_def)
     (subst toF64_eval [where e = "-8"], simp_all add: rne_def Let_def powr_minus_divide)

lemma dbl_sp_17: "f64_mul (Num 100) (Num (226981421219473 / 36028797018963968)) = Num (5674535530486825 / 9007199254740992)"
  by (simp add: f64_mul_def isInf_def isZero_def)
     (subst toF64_eval [where e = "-1"], simp_all add: rne_def Let_def powr_minus_divide)

lemma dbl_sp_18: "f64_div (Num (5674535530486825 / 9007199254740992)) (Num (5188146770730811 / 1152921504606846976)) = Num 140"
  by (simp add: f64_div_def isInf_def isZero_def)
     (subst toF64_eval [where e = "7"], simp_all add: rne_def Let_def powr_minus_divide)

lemma dbl_sp_19: "f64_sub (Num 1) (Num (3152519739159347 / 4503599627370496)) = Num (1351079888211149 / 4503599627370496)"
  by (simp add: f64_sub_def f64_add_def isInf_def isZero_def)
     (subst toF64_eval [where e = "-2"], simp_all add: rne_def Let_def powr_minus_divide)

lemma dbl_sp_20: "f64_mul (Num 140) (Num (1351079888211149 / 4503599627370496)) = Num (5910974510923777 / 140737488355328)"
  by (simp add: f64_mul_def isInf_def isZero_def)
     (subst toF64_eval [where e = "5"], simp_all add: rne_def Let_def powr_minus_divide)

lemma dbl_sp_21: "f64_mul (Num 100) (Num (5291729562160333 / 1125899906842624)) = Num 470"
  by (simp add: f64_mul_def isInf_def isZero_def)
     (subst toF64_eval [where e = "8"], simp_all add: rne_def Let_def powr_minus_divide)

lemma dbl_sp_22: "f64_div (Num 470) (Num (9 / 2)) = Num (7349624391889351 / 70368744177664)"
  by (simp add: f64_div_def isInf_def isZero_def)
     (subst toF64_eval [where e = "6"], simp_all add: rne_def Let_def powr_minus_divide)

lemma dbl_sp_23: "f64_mul (Num (7349624391889351 / 70368744177664)) (Num (1 / 4)) = Num (7349624391889351 / 281474976710656)"
  by (simp add: f64_mul_def isInf_def isZero_def)
     (subst toF64_eval [where e = "4"], simp_all add: rne_def Let_def powr_minus_divide)

lemmas dbl_sp = dbl_sp_1 dbl_sp_2 dbl_sp_3 dbl_sp_4 dbl_sp_5 dbl_sp_6 dbl_sp_7 dbl_sp_8 dbl_sp_9 dbl_sp_10 dbl_sp_11 dbl_sp_12 dbl_sp_13 dbl_sp_14 dbl_sp_15 dbl_sp_16 dbl_sp_17 dbl_sp_18 dbl_sp_19 dbl_sp_20 dbl_sp_21 dbl_sp_22 dbl_sp_23

lemma spacingSteps_defaults:
  "spacingSteps (Num 100) (sensorHeight_mm (Mavic3T_Wide ieee))
     (focalLength_mm (Mavic3T_Wide ieee)) (toF64 0.75) =
     [Num (5418731071652181 / 1152921504606846976), Num (8466767299456533 / 18014398509481984),
      Num (5188146770730811 / 1152921504606846976), Num (918703048986169 / 8796093022208),
      Num (1 / 4), Num (918703048986169 / 35184372088832)]"
  "spacingSteps (Num 100) (sensorWidth_mm (Mavic3T_Wide ieee))
     (focalLength_mm (Mavic3T_Wide ieee)) (toF64 0.7) =
     [Num (226981421219473 / 36028797018963968), Num (5674535530486825 / 9007199254740992),
      Num (5188146770730811 / 1152921504606846976), Num 140,
      Num (1351079888211149 / 4503599627370496), Num (5910974510923777 / 140737488355328)]"
  by (simp_all add: spacingSteps_def Mavic3T_Wide_def ieee_def Let_def dbl_sp)

theorem spacingFromOverlap_rounded_witness:
  "list_all normalF64
     (spacingSteps (Num 100) (sensorHeight_mm (Mavic3T_Wide ieee))
        (focalLength_mm (Mavic3T_Wide ieee)) (toF64 0.75))
   \<and> list_all normalF64
     (spacingSteps (Num 100) (sensorWidth_mm (Mavic3T_Wide ieee))
        (focalLength_mm (Mavic3T_Wide ieee)) (toF64 0.7))
   \<and> along_m (spacingFromOverlap ieee (Num 100) (Mavic3T_Wide ieee) (toF64 0.75) (toF64 0.7)) =
       Num (918703048986169 / 35184372088832)
   \<and> across_m (spacingFromOverlap ieee (Num 100) (Mavic3T_Wide ieee) (toF64 0.75) (toF64 0.7)) =
       Num (5910974510923777 / 140737488355328)
   \<and> \<bar>100 * (5291729562160333 / 1125899906842624) / (9 / 2) * (1 - 3 / 4)
        - 918703048986169 / 35184372088832\<bar>
       \<le> 2 powr (- 50) * \<bar>918703048986169 / 35184372088832 :: real\<bar>
   \<and> \<bar>100 * (7093169413108531 / 1125899906842624) / (9 / 2)
          * (1 - 3152519739159347 / 4503599627370496)
        - 5910974510923777 / 140737488355328\<bar>
       \<le> 2 powr (- 50) * \<bar>5910974510923777 / 140737488355328 :: real\<bar>"
proof -
  have n1: "list_all normalF64
     (spacingSteps (Num 100) (sensorHeight_mm (Mavic3T_Wide ieee))
        (focalLength_mm (Mavic3T_Wide ieee)) (toF64 0.75))"
    unfolding spacingSteps_defaults by (simp add: powr_minus_divide)
  have n2: "list_all normalF64
     (spacingSteps (Num 100) (sensorWidth_mm (Mavic3T_Wide ieee))
        (focalLength_mm (Mavic3T_Wide ieee)) (toF64 0.7))"
    unfolding spacingSteps_defaults by (simp add: powr_minus_divide)
  have inputs: "fv (sensorHeight_mm (Mavic3T_Wide ieee)) = 5291729562160333 / 1125899906842624"
    "fv (sensorWidth_mm (Mavic3T_Wide ieee)) = 7093169413108531 / 1125899906842624"
    "fv (focalLength_mm (Mavic3T_Wide ieee)) = 9 / 2"
    "fv (toF64 0.75) = 3 / 4"
    "fv (toF64 0.7) = 3152519739159347 / 4503599627370496"
    by (simp_all add: Mavic3T_Wide_def ieee_def dbl_sp)
  from spacingFromOverlap_rounded
    [of "Num 100" "Mavic3T_Wide ieee" "toF64 0.75" "toF64 0.7"] n1 n2
  show ?thesis
    unfolding spacingSteps_defaults inputs
    by (simp add: powr_minus_divide)
qed

text \<open>
  C8 as stated fails at the same inputs. The spacings returned are the doubles
  26.111111111111114 and 42.00000000000001. Neither is the exact value of the formula at
  the inputs, and the along-track spacing is not the value of the formula computed in
  doubles in the order the formula is written either, which is 26.11111111111111.
\<close>

theorem spacingFromOverlap_exact_counterexample:
  "along_m (spacingFromOverlap ieee (Num 100) (Mavic3T_Wide ieee) (toF64 0.75) (toF64 0.7)) \<noteq>
     Num (fv (Num 100) * fv (sensorHeight_mm (Mavic3T_Wide ieee))
          / fv (focalLength_mm (Mavic3T_Wide ieee)) * (1 - fv (toF64 0.75)))
   \<and> along_m (spacingFromOverlap ieee (Num 100) (Mavic3T_Wide ieee) (toF64 0.75) (toF64 0.7)) \<noteq>
     f64_mul
       (f64_div (f64_mul (Num 100) (sensorHeight_mm (Mavic3T_Wide ieee)))
          (focalLength_mm (Mavic3T_Wide ieee)))
       (f64_sub (toF64 1) (toF64 0.75))
   \<and> across_m (spacingFromOverlap ieee (Num 100) (Mavic3T_Wide ieee) (toF64 0.75) (toF64 0.7)) \<noteq>
     Num (fv (Num 100) * fv (sensorWidth_mm (Mavic3T_Wide ieee))
          / fv (focalLength_mm (Mavic3T_Wide ieee)) * (1 - fv (toF64 0.7)))"
  unfolding spacingFromOverlap_steps spacingSteps_defaults
  by (simp add: Mavic3T_Wide_def ieee_def dbl_sp)

text \<open>
  The hypothesis of C8 as amended admits finite inputs only, and it is needed. At a height
  of \<open>2\<close> to the power \<open>1023\<close>, a focal length of 1 mm and a sidelap of 0.9 the quotient
  in \<open>footprintMeters\<close> overflows and the across-track spacing returned is \<open>Infinity\<close>,
  where the value of the formula is in the range of the doubles.
\<close>

lemma spacingSteps_normal_inputs:
  assumes "list_all normalF64 (spacingSteps h sensor focal lap)"
  shows "(\<exists>r. h = Num r \<and> r \<noteq> 0) \<and> (\<exists>r. sensor = Num r \<and> r \<noteq> 0)
         \<and> (\<exists>r. focal = Num r \<and> r \<noteq> 0) \<and> (\<exists>r. lap = Num r \<or> lap = NegZero)"
  using assms
  by (cases h; cases sensor; cases focal; cases lap)
     (auto simp add: spacingSteps_def Let_def toF64_1000 toF64_1 f64_div_def f64_mul_def
        f64_sub_def f64_add_def isInf_def isZero_def signedInf_def signedZero_def
        split: if_splits)

lemma dbl_ov_1: "f64_mul (Num (2 ^ 1023)) (Num (226981421219473 / 36028797018963968)) = Num (226981421219473 * 2 ^ 968)"
  by (simp add: f64_mul_def isInf_def isZero_def)
     (subst toF64_eval [where e = "1015"], simp_all add: rne_def Let_def powr_minus_divide)

lemma dbl_ov_2: "f64_div (Num 1) (Num 1000) = Num (1152921504606847 / 1152921504606846976)"
  by (simp add: f64_div_def isInf_def isZero_def)
     (subst toF64_eval [where e = "-10"], simp_all add: rne_def Let_def powr_minus_divide)

lemma dbl_ov_3: "f64_div (Num (226981421219473 * 2 ^ 968)) (Num (1152921504606847 / 1152921504606846976)) = Infinity"
  by (simp add: f64_div_def isInf_def isZero_def)
     (subst toF64_eval [where e = "1025"], simp_all add: rne_def Let_def powr_minus_divide)

lemma dbl_ov_4: "toF64 (9 / 10) = Num (8106479329266893 / 9007199254740992)"
  by (subst toF64_eval [where e = "-1"]) (simp_all add: rne_def Let_def powr_minus_divide)

lemma dbl_ov_5: "f64_sub (Num 1) (Num (8106479329266893 / 9007199254740992)) = Num (900719925474099 / 9007199254740992)"
  by (simp add: f64_sub_def f64_add_def isInf_def isZero_def)
     (subst toF64_eval [where e = "-4"], simp_all add: rne_def Let_def powr_minus_divide)

lemma dbl_ov_6: "f64_mul Infinity (Num (900719925474099 / 9007199254740992)) = Infinity"
  by (simp add: f64_mul_def isInf_def isZero_def signedInf_def)

lemmas dbl_ov = dbl_ov_1 [simplified] dbl_ov_2 dbl_ov_3 [simplified] dbl_ov_4 dbl_ov_5 dbl_ov_6

lemma spacingFromOverlap_overflow_example:
  "across_m (spacingFromOverlap ieee (Num (2 ^ 1023))
       ((Mavic3T_Wide ieee) \<lparr> focalLength_mm := Num 1 \<rparr>) (toF64 0.75) (toF64 0.9)) = Infinity
   \<and> 2 ^ 1023 * fv (toF64 6.3) / fv (Num 1) * (1 - fv (toF64 0.9)) < (2 ^ 1024 :: real)"
  by (simp add: spacingFromOverlap_def footprintMeters_def Mavic3T_Wide_def ieee_def Let_def
        toF64_1000 toF64_1 dbl_sp dbl_ov)

subsection \<open>orientedPathLonLat\<close>



subsection \<open>buildGridInsidePolygon: when the loop ends\<close>

text \<open>With the bound at \<open>Infinity\<close> and the counter at \<open>-Infinity\<close> the loop returns nothing.\<close>

lemma gridLoop_no_result:
  assumes res: "gridLoop T poly bl spacing_m ortho halfSteps i lgs = Some r"
  shows "\<not> (halfSteps = PosInf \<and> i = NegInf)"
proof (rule gridLoop.raw_induct
    [where P = "\<lambda>T poly bl spacing_m ortho halfSteps i lgs r. \<not> (halfSteps = PosInf \<and> i = NegInf)",
     OF _ res])
  fix f :: "Turf \<Rightarrow> Polygon \<Rightarrow> LonLat list \<Rightarrow> real \<Rightarrow> real \<Rightarrow> jsnum \<Rightarrow> jsnum
      \<Rightarrow> LatLon list list \<Rightarrow> LatLon list list option"
    and T :: Turf and poly :: Polygon and bl :: "LonLat list" and spacing_m ortho :: real
    and halfSteps i :: jsnum and lgs r :: "LatLon list list"
  assume IH: "\<And>T poly bl spacing_m ortho halfSteps i lgs r.
      f T poly bl spacing_m ortho halfSteps i lgs = Some r \<Longrightarrow>
      \<not> (halfSteps = PosInf \<and> i = NegInf)"
  assume body: "(if js_le i halfSteps
       then f T poly bl spacing_m ortho halfSteps (js_inc i)
             (gridBody T poly bl spacing_m ortho i lgs)
       else Some lgs) = Some r"
  show "\<not> (halfSteps = PosInf \<and> i = NegInf)"
  proof
    assume inf: "halfSteps = PosInf \<and> i = NegInf"
    with body have "f T poly bl spacing_m ortho halfSteps i
        (gridBody T poly bl spacing_m ortho i lgs) = Some r"
      by simp
    from IH [OF this] inf show False by simp
  qed
qed

lemma gridLoop_diverges:
  "gridLoop T poly bl spacing_m ortho PosInf NegInf lgs = None"
proof (cases "gridLoop T poly bl spacing_m ortho PosInf NegInf lgs")
  case None
  then show ?thesis .
next
  case (Some r)
  from gridLoop_no_result [OF this] show ?thesis by simp
qed

text \<open>With a finite whole bound the loop runs over the whole numbers up to the bound.\<close>

lemma gridLoop_finite:
  "gridLoop T poly bl spacing_m ortho (Fin (of_int n)) (Fin (of_int k)) lgs =
     Some (foldl (\<lambda>l i. gridBody T poly bl spacing_m ortho (Fin (of_int i)) l) lgs [k..n])"
proof (induction "nat (n - k + 1)" arbitrary: k lgs)
  case 0
  then have gt: "n < k" by simp
  then have "[k..n] = []" by simp
  moreover have "\<not> js_le (Fin (of_int k)) (Fin (of_int n))" using gt by simp
  ultimately show ?case by (subst gridLoop.simps) simp
next
  case (Suc m)
  then have le: "k \<le> n" by simp
  have m: "m = nat (n - (k + 1) + 1)" using Suc.hyps(2) by simp
  have unfold: "[k..n] = k # [k + 1..n]" using le by (simp add: upto_rec1)
  have inc: "js_inc (Fin (of_int k)) = Fin (of_int (k + 1))" by simp
  have test: "js_le (Fin (of_int k)) (Fin (of_int n))" using le by simp
  show ?case
    by (subst gridLoop.simps) (simp only: test if_True inc Suc.hyps(1) [OF m] unfold foldl_Cons)
qed

subsection \<open>buildGridInsidePolygon: the direction of the legs\<close>

lemma length_zigzagFrom: "length (zigzagFrom n ps) = length ps"
  by (induction ps arbitrary: n) simp_all

lemma nth_zigzagFrom:
  "k < length ps \<Longrightarrow> zigzagFrom n ps ! k = (if even (n + k) then ps ! k else rev (ps ! k))"
proof (induction ps arbitrary: n k)
  case Nil
  then show ?case by simp
next
  case (Cons p ps)
  show ?case
  proof (cases k)
    case 0
    then show ?thesis by simp
  next
    case (Suc j)
    with Cons.prems have "j < length ps" by simp
    from Cons.IH [OF this, of "Suc n"] Suc show ?thesis by simp
  qed
qed

lemma zigzagFrom_append:
  "zigzagFrom n (ps @ qs) = zigzagFrom n ps @ zigzagFrom (n + length ps) qs"
  by (induction ps arbitrary: n) simp_all

lemma foldl_pushZigZag:
  "foldl pushZigZag lgs ps = lgs @ zigzagFrom (length lgs) ps"
proof (induction ps arbitrary: lgs)
  case Nil
  show ?case by simp
next
  case (Cons p ps)
  have "pushZigZag lgs p = lgs @ [if even (length lgs) then p else rev p]"
    by (simp add: pushZigZag_def even_iff_mod_2_eq_zero)
  then show ?case by (simp add: Cons.IH)
qed

lemma pieceStep_keep:
  "pieceStep T poly lgs coords =
     (if keepPiece T poly coords then pushZigZag lgs (map toLatLon coords) else lgs)"
proof (cases "length coords < 2")
  case True
  then show ?thesis by (simp add: pieceStep_def keepPiece_def)
next
  case False
  then have ne: "coords \<noteq> []" by auto
  have "coords ! 0 = hd coords" "coords ! (length coords - 1) = last coords"
    using ne by (simp_all add: hd_conv_nth last_conv_nth)
  then show ?thesis using False by (simp add: pieceStep_def keepPiece_def Let_def)
qed

lemma foldl_pieceStep:
  "foldl (pieceStep T poly) lgs pieces =
     foldl pushZigZag lgs (map (map toLatLon) (filter (keepPiece T poly) pieces))"
  by (induction pieces arbitrary: lgs) (simp_all add: pieceStep_keep)

lemma gridBody_finite:
  "gridBody T poly (baseLine T poly h) s (js_rem (h + 90) 360) (Fin (of_int i)) lgs =
     foldl pushZigZag lgs (keptOfLine T poly h s i)"
  by (simp add: gridBody_def Let_def foldl_pieceStep keptOfLine_def scanLine_def js_div_def)

lemma foldl_gridBody:
  "foldl (\<lambda>l i. gridBody T poly (baseLine T poly h) s (js_rem (h + 90) 360) (Fin (of_int i)) l) lgs is =
     foldl pushZigZag lgs (concat (map (keptOfLine T poly h s) is))"
  by (induction "is" arbitrary: lgs) (simp_all add: gridBody_finite)

lemma buildGrid_finite:
  assumes "spacing_m \<noteq> 0"
  shows "buildGridInsidePolygon T poly headingDeg spacing_m =
           Some (zigzagFrom 0 (keptPaths T poly headingDeg spacing_m))"
proof -
  define n where "n = \<lceil>cover_m T poly spacing_m / (2 * spacing_m)\<rceil>"
  have hs: "js_ceil (js_div (cover_m T poly spacing_m) (2 * spacing_m)) = Fin (of_int n)"
    using assms by (simp add: js_div_def n_def)
  have neg: "js_neg (Fin (of_int n)) = Fin (of_int (- n))" by simp
  have "buildGridInsidePolygon T poly headingDeg spacing_m =
      gridLoop T poly (baseLine T poly headingDeg) spacing_m (js_rem (headingDeg + 90) 360)
        (Fin (of_int n)) (Fin (of_int (- n))) []"
    unfolding buildGridInsidePolygon_def Let_def hs neg ..
  also have "\<dots> = Some (foldl pushZigZag [] (keptPaths T poly headingDeg spacing_m))"
    unfolding gridLoop_finite foldl_gridBody keptPaths_def Let_def n_def ..
  finally show ?thesis by (simp add: foldl_pushZigZag)
qed

lemma buildGrid_zero:
  "buildGridInsidePolygon T poly headingDeg 0 =
     (if 0 < max (width_m T poly) (height_m T poly) then None else Some [])"
proof -
  define m where "m = max (width_m T poly) (height_m T poly)"
  have c: "cover_m T poly 0 = m"
    by (simp add: cover_m_def m_def)
  have "buildGridInsidePolygon T poly headingDeg 0 = (if 0 < m then None else Some [])"
  proof (cases "0 < m")
    case True
    then have "js_ceil (js_div m (2 * 0)) = PosInf"
      by (simp add: js_div_def)
    then show ?thesis using True
      by (simp add: buildGridInsidePolygon_def Let_def c gridLoop_diverges)
  next
    case False
    show ?thesis
    proof (cases "m < 0")
      case neg: True
      then have "js_ceil (js_div m (2 * 0)) = NegInf"
        by (simp add: js_div_def)
      then show ?thesis using False
        by (simp add: buildGridInsidePolygon_def Let_def c gridLoop.simps)
    next
      case zero: False
      with False have "js_ceil (js_div m (2 * 0)) = NaN"
        by (simp add: js_div_def)
      then show ?thesis using False
        by (simp add: buildGridInsidePolygon_def Let_def c gridLoop.simps)
    qed
  qed
  then show ?thesis by (simp only: m_def)
qed

subsection \<open>The planar geometry on the rectangle\<close>

lemma sqrt_squares: "sqrt 16 = 4" "sqrt 9 = 3" "sqrt 25 = 5"
  using real_sqrt_abs [of 4] real_sqrt_abs [of 3] real_sqrt_abs [of 5] by simp_all

lemma trig270: "sin (3 * pi / 2) = -1" "cos (3 * pi / 2) = 0"
  using sin_3over2_pi cos_3over2_pi by (simp_all add: mult.commute)

lemma js_rem_values: "js_rem 180 360 = 180" "js_rem 90 360 = 90" "js_rem 270 360 = 270"
  by (simp_all add: js_rem_def)

lemma flat_bbox_rect43: "bbox flatTurf rect43 = (0, 0, 4, 3)" "flat_bbox rect43 = (0, 0, 4, 3)"
  by (simp_all add: flatTurf_def flat_bbox_def rect43_def)

lemma width_rect43: "width_m flatTurf rect43 = 4000"
  by (simp add: width_m_def flat_bbox_rect43 centerLat_def)
     (simp add: flatTurf_def flat_distance_def sqrt_squares)

lemma height_rect43: "height_m flatTurf rect43 = 3000"
  by (simp add: height_m_def flat_bbox_rect43 centerLon_def)
     (simp add: flatTurf_def flat_distance_def sqrt_squares)

lemma diag_rect43: "diag_m flatTurf rect43 = 5000"
  by (simp add: diag_m_def flat_bbox_rect43)
     (simp add: flatTurf_def flat_distance_def sqrt_squares)

lemma baseLine_rect43:
  "baseLine flatTurf rect43 0 = [(2, -7/2), (2, 13/2)]"
  "baseLine flatTurf rect43 90 = [(-3, 3/2), (7, 3/2)]"
  by (simp_all add: baseLine_def diag_rect43 Let_def centerLon_def centerLat_def
        flat_bbox_rect43 js_rem_values)
     (simp_all add: flatTurf_def flat_destination_def trig270)

lemma kept_shifted_north:
  "map (map toLatLon) (filter (keepPiece flatTurf rect43)
     (piecesOf flatTurf rect43 (transformTranslate flatTurf [(2, -7/2), (2, 13/2)] (Fin d) 90))) =
     (if 0 < 2 + d \<and> 2 + d < 4 then [[(-7/2, 2 + d), (13/2, 2 + d)]] else [])"
  by (simp add: piecesOf_def flatTurf_def flat_translate_def flat_destination_def
        flat_midpoint_def flat_inside_def flat_bbox_rect43 toLatLon_def keepPiece_def)

lemma kept_shifted_east:
  "map (map toLatLon) (filter (keepPiece flatTurf rect43)
     (piecesOf flatTurf rect43 (transformTranslate flatTurf [(-3, 3/2), (7, 3/2)] (Fin d) 180))) =
     (if 0 < 3/2 - d \<and> 3/2 - d < 3 then [[(3/2 - d, -3), (3/2 - d, 7)]] else [])"
  by (simp add: piecesOf_def flatTurf_def flat_translate_def flat_destination_def
        flat_midpoint_def flat_inside_def flat_bbox_rect43 toLatLon_def keepPiece_def)

lemma keptOfLine_rect43_north:
  "keptOfLine flatTurf rect43 0 s i =
     (if 0 < 2 + real_of_int i * s / 1000 \<and> 2 + real_of_int i * s / 1000 < 4
      then [[(-7/2, 2 + real_of_int i * s / 1000), (13/2, 2 + real_of_int i * s / 1000)]]
      else [])"
  unfolding keptOfLine_def scanLine_def baseLine_rect43
  using kept_shifted_north [of "real_of_int i * s / 1000"] by (simp add: js_rem_values)

lemma keptOfLine_rect43_east:
  "keptOfLine flatTurf rect43 90 s i =
     (if 0 < 3/2 - real_of_int i * s / 1000 \<and> 3/2 - real_of_int i * s / 1000 < 3
      then [[(3/2 - real_of_int i * s / 1000, -3), (3/2 - real_of_int i * s / 1000, 7)]]
      else [])"
  unfolding keptOfLine_def scanLine_def baseLine_rect43
  using kept_shifted_east [of "real_of_int i * s / 1000"] by (simp add: js_rem_values)

lemma keptPaths_rect43_north:
  "keptPaths flatTurf rect43 0 1500 =
     [[(-7/2, 1/2), (13/2, 1/2)], [(-7/2, 2), (13/2, 2)], [(-7/2, 7/2), (13/2, 7/2)]]"
  by (simp add: keptPaths_def cover_m_def width_rect43 height_rect43 Let_def
        keptOfLine_rect43_north upto_rec1)

lemma keptPaths_rect43_east:
  "keptPaths flatTurf rect43 90 1500 = [[(3/2, -3), (3/2, 7)]]"
  by (simp add: keptPaths_def cover_m_def width_rect43 height_rect43 Let_def
        keptOfLine_rect43_east upto_rec1)

lemma keptPaths_rect43_negative:
  "keptPaths flatTurf rect43 0 (- 3000) = [[(-7/2, 2), (13/2, 2)]]"
  by (simp add: keptPaths_def cover_m_def width_rect43 height_rect43 Let_def
        keptOfLine_rect43_north upto_rec1)

lemma buildGrid_rect43_north:
  "buildGridInsidePolygon flatTurf rect43 0 1500 =
     Some [[(-7/2, 1/2), (13/2, 1/2)], [(13/2, 2), (-7/2, 2)], [(-7/2, 7/2), (13/2, 7/2)]]"
  by (simp add: buildGrid_finite keptPaths_rect43_north)

lemma buildGrid_rect43_east:
  "buildGridInsidePolygon flatTurf rect43 90 1500 = Some [[(3/2, -3), (3/2, 7)]]"
  by (simp add: buildGrid_finite keptPaths_rect43_east)

lemma buildGrid_negative_spacing_example:
  "buildGridInsidePolygon flatTurf rect43 0 (- 3000) = Some [[(-7/2, 2), (13/2, 2)]]"
  by (simp add: buildGrid_finite keptPaths_rect43_negative)

lemma planningLegs_rect43:
  "planningLegs flatTurf (Some rect43) True 0 1500 =
     Some [[(-7/2, 1/2), (13/2, 1/2)], [(13/2, 2), (-7/2, 2)], [(-7/2, 7/2), (13/2, 7/2)],
           [(3/2, -3), (3/2, 7)]]"
proof -
  have guard: "\<not> (rect43 = [] \<or> length (rect43 ! 0) < 4)"
    by (simp add: rect43_def)
  show ?thesis
    by (simp add: planningLegs_def legsPrimary_def legsCross_def guard allLegs_def
          js_rem_values buildGrid_rect43_north buildGrid_rect43_east)
qed


text \<open>
  C3. With a spacing of zero the grid builder does not return the empty leg list: for a
  polygon whose bounding box has a positive width or height, \<open>halfSteps\<close> is
  \<open>Infinity\<close>, the counter starts at \<open>-Infinity\<close> and stays there, and the loop never
  ends. (With a negative spacing the builder can return legs, as
  \<open>buildGrid_negative_spacing_example\<close> shows.)
\<close>

theorem buildGridInsidePolygon_zero_spacing:
  "buildGridInsidePolygon T poly headingDeg 0 =
     (if 0 < max (width_m T poly) (height_m T poly) then None else Some [])"
  by (rule buildGrid_zero)

theorem buildGridInsidePolygon_zero_spacing_witness:
  "buildGridInsidePolygon flatTurf rect43 0 0 = None"
  using buildGridInsidePolygon_zero_spacing [of flatTurf rect43 0]
  by (simp add: width_rect43 height_rect43)

text \<open>
  C7, as amended. For a spacing other than zero both passes return. The legs of the
  primary pass alternate by their index in that pass, starting forward; with crosshatch
  the legs of the cross pass follow, and alternate by their index in the cross pass,
  starting forward again. Forward is the direction of the kept piece, which is that of
  its scan line.
\<close>

theorem planningLegs_alternate_per_pass:
  fixes T :: Turf and poly :: Polygon and heading across :: real and crosshatch :: bool
  defines "fp \<equiv> keptPaths T poly heading across"
    and "fc \<equiv> keptPaths T poly (js_rem (heading + 90) 360) across"
  assumes spacing: "across \<noteq> 0" and ring: "poly \<noteq> []" "4 \<le> length (poly ! 0)"
  shows "\<exists>lgs. planningLegs T (Some poly) crosshatch heading across = Some lgs
    \<and> length lgs = length fp + (if crosshatch then length fc else 0)
    \<and> (\<forall>k < length fp. lgs ! k = (if even k then fp ! k else rev (fp ! k)))
    \<and> (crosshatch \<longrightarrow>
         (\<forall>k < length fc. lgs ! (length fp + k) = (if even k then fc ! k else rev (fc ! k))))"
proof -
  define lgs where "lgs = zigzagFrom 0 fp @ (if crosshatch then zigzagFrom 0 fc else [])"
  have guard: "\<not> (poly = [] \<or> length (poly ! 0) < 4)"
    using ring by simp
  have res: "planningLegs T (Some poly) crosshatch heading across = Some lgs"
    by (simp add: planningLegs_def legsPrimary_def legsCross_def guard allLegs_def
          buildGrid_finite [OF spacing] lgs_def fp_def fc_def)
  have len: "length lgs = length fp + (if crosshatch then length fc else 0)"
    by (simp add: lgs_def length_zigzagFrom)
  have first: "\<forall>k < length fp. lgs ! k = (if even k then fp ! k else rev (fp ! k))"
    by (simp add: lgs_def nth_append length_zigzagFrom nth_zigzagFrom)
  have second: "crosshatch \<longrightarrow>
      (\<forall>k < length fc. lgs ! (length fp + k) = (if even k then fc ! k else rev (fc ! k)))"
    by (simp add: lgs_def nth_append length_zigzagFrom nth_zigzagFrom)
  show ?thesis using res len first second by blast
qed

theorem planningLegs_alternate_per_pass_witness:
  "(1500 :: real) \<noteq> 0 \<and> rect43 \<noteq> [] \<and> 4 \<le> length (rect43 ! 0)
   \<and> (\<exists>lgs. planningLegs flatTurf (Some rect43) True 0 1500 = Some lgs
        \<and> length lgs = 4
        \<and> lgs ! 1 = rev (keptPaths flatTurf rect43 0 1500 ! 1)
        \<and> lgs ! 3 = keptPaths flatTurf rect43 90 1500 ! 0)"
proof -
  have a: "(1500 :: real) \<noteq> 0" by simp
  have b: "rect43 \<noteq> []" by (simp add: rect43_def)
  have c: "4 \<le> length (rect43 ! 0)" by (simp add: rect43_def)
  from planningLegs_alternate_per_pass
    [where T = flatTurf and poly = rect43 and heading = 0 and across = 1500
       and crosshatch = True, OF a b c]
  obtain lgs where res: "planningLegs flatTurf (Some rect43) True 0 1500 = Some lgs"
    and len: "length lgs = length (keptPaths flatTurf rect43 0 1500) +
          length (keptPaths flatTurf rect43 (js_rem (0 + 90) 360) 1500)"
    and first: "\<forall>k < length (keptPaths flatTurf rect43 0 1500).
          lgs ! k = (if even k then keptPaths flatTurf rect43 0 1500 ! k
                     else rev (keptPaths flatTurf rect43 0 1500 ! k))"
    and second: "\<forall>k < length (keptPaths flatTurf rect43 (js_rem (0 + 90) 360) 1500).
          lgs ! (length (keptPaths flatTurf rect43 0 1500) + k) =
            (if even k then keptPaths flatTurf rect43 (js_rem (0 + 90) 360) 1500 ! k
             else rev (keptPaths flatTurf rect43 (js_rem (0 + 90) 360) 1500 ! k))"
    by auto
  have l4: "length lgs = 4"
    using len by (simp add: js_rem_values keptPaths_rect43_north keptPaths_rect43_east)
  have l1: "lgs ! 1 = rev (keptPaths flatTurf rect43 0 1500 ! 1)"
    using first by (simp add: keptPaths_rect43_north)
  have l3: "lgs ! 3 = keptPaths flatTurf rect43 90 1500 ! 0"
    using second
    by (simp add: js_rem_values keptPaths_rect43_north keptPaths_rect43_east eval_nat_numeral)
  show ?thesis using a b c res l4 l1 l3 by blast
qed

text \<open>
  C7 as stated fails on the rectangle with crosshatch at a spacing of 1500 m: the primary
  pass has three legs, so the first leg of the cross pass stands at position 3, an odd
  one, and it is forward.
\<close>

theorem planningLegs_alternate_counterexample:
  "\<not> (\<forall>lgs. planningLegs flatTurf (Some rect43) True 0 1500 = Some lgs \<longrightarrow>
        (\<forall>k < length lgs.
           lgs ! k =
             (if even k
              then (keptPaths flatTurf rect43 0 1500 @ keptPaths flatTurf rect43 90 1500) ! k
              else rev ((keptPaths flatTurf rect43 0 1500 @ keptPaths flatTurf rect43 90 1500) ! k))))"
proof
  assume all: "\<forall>lgs. planningLegs flatTurf (Some rect43) True 0 1500 = Some lgs \<longrightarrow>
        (\<forall>k < length lgs.
           lgs ! k =
             (if even k
              then (keptPaths flatTurf rect43 0 1500 @ keptPaths flatTurf rect43 90 1500) ! k
              else rev ((keptPaths flatTurf rect43 0 1500 @ keptPaths flatTurf rect43 90 1500) ! k)))"
  define lgs :: "LatLon list list" where
    "lgs = [[(-7/2, 1/2), (13/2, 1/2)], [(13/2, 2), (-7/2, 2)], [(-7/2, 7/2), (13/2, 7/2)],
            [(3/2, -3), (3/2, 7)]]"
  have "planningLegs flatTurf (Some rect43) True 0 1500 = Some lgs"
    unfolding lgs_def by (rule planningLegs_rect43)
  with all have "\<forall>k < length lgs.
           lgs ! k =
             (if even k
              then (keptPaths flatTurf rect43 0 1500 @ keptPaths flatTurf rect43 90 1500) ! k
              else rev ((keptPaths flatTurf rect43 0 1500 @ keptPaths flatTurf rect43 90 1500) ! k))"
    by blast
  moreover have "(3 :: nat) < length lgs" by (simp add: lgs_def)
  ultimately have "lgs ! 3 =
      rev ((keptPaths flatTurf rect43 0 1500 @ keptPaths flatTurf rect43 90 1500) ! 3)"
    by (metis even_numeral odd_numeral)
  then show False
    by (simp add: lgs_def keptPaths_rect43_north keptPaths_rect43_east)
qed

end
